theory Spec2Isabelle
  imports Main
begin

section \<open>SyncDB: replication of missing rows from a source to a target database\<close>

text \<open>
  The development embeds \<^verbatim>\<open>src/syncDB/queries.py\<close>, the class
  \<^verbatim>\<open>PostgresDatabaseSync\<close> of \<^verbatim>\<open>src/syncDB/syncDB.py\<close> and \<^verbatim>\<open>main\<close> of
  \<^verbatim>\<open>src/__init__.py\<close>.  The Python code is a client of two PostgreSQL servers, so the
  embedding has two layers:

  \<^item> the client code, translated function by function (same names, same order of calls,
    every exception a value of type \<open>error\<close>);
  \<^item> the database behind each connection, which the repository does not contain: a list of
    tables with their catalog data, constraints and rows, and one semantic function per
    statement the client sends (\<open>db_table_exists\<close>, \<open>db_columns\<close>, \<open>db_primary_keys\<close>,
    \<open>db_select_all\<close>, \<open>db_probe\<close>, \<open>db_create_table\<close>, \<open>db_insert\<close>,
    \<open>db_public_tables\<close>).  Each one states next to its definition the statement it answers.

  Scope of the database layer: identifiers are plain lower-case names (so that the quoted
  identifier, the unquoted one and the \<open>regclass\<close> text denote the same relation), an
  unqualified table name resolves to schema \<open>public\<close>, values are compared structurally
  (no type coercion, no type errors), and nobody else writes to either database during a run.
\<close>

subsection \<open>Values, tables, databases\<close>

datatype val = Null | IntV int | TextV string

record table =
  tbl_schema :: string
  tbl_name :: string
  tbl_cols :: "(string \<times> string) list"
  tbl_pkey :: "string list"
  tbl_unique :: "string list list"
  tbl_notnull :: "string list"
  tbl_rows :: "val list list"

type_synonym database = "table list"

text \<open>
  \<open>tbl_cols\<close> are the (column name, data type) pairs of the catalog; \<open>tbl_pkey\<close> the
  columns of the primary key (\<open>[]\<close>: none); \<open>tbl_unique\<close> every uniqueness constraint of the
  table, that of the primary key included; \<open>tbl_notnull\<close> the columns declared NOT NULL
  (the simplest integrity constraint that \<open>ON CONFLICT DO NOTHING\<close> does not absorb);
  a row is positional, aligned with \<open>tbl_cols\<close>.
\<close>

datatype error =
    IntegrityError string
  | ProgrammingError string
  | OperationalError string
  | ValueError string
  | IndexError string
  | TypeError string
  | FileNotFoundError string

fun str_error :: "error \<Rightarrow> string" where
  "str_error (IntegrityError m) = m"
| "str_error (ProgrammingError m) = m"
| "str_error (OperationalError m) = m"
| "str_error (ValueError m) = m"
| "str_error (IndexError m) = m"
| "str_error (TypeError m) = m"
| "str_error (FileNotFoundError m) = m"

fun is_integrity_error :: "error \<Rightarrow> bool" where
  "is_integrity_error (IntegrityError m) = True"
| "is_integrity_error e = False"

subsection \<open>The composable SQL objects of the driver (psycopg2.sql)\<close>

datatype sql = SQL string | Identifier string | Composed "sql list"

definition quote_ident :: "string \<Rightarrow> string" where
  "quote_ident s =
     CHR 0x22 # concat (map (\<lambda>c. if c = CHR 0x22 then [c, c] else [c]) s) @ [CHR 0x22]"

fun as_string :: "sql \<Rightarrow> string" where
  "as_string (SQL s) = s"
| "as_string (Identifier s) = quote_ident s"
| "as_string (Composed xs) = concat (map as_string xs)"

text \<open>\<open>joiner.join(seq)\<close>: the elements of \<open>seq\<close> with the joiner between them.\<close>

fun sql_join :: "sql \<Rightarrow> sql list \<Rightarrow> sql" where
  "sql_join j [] = Composed []"
| "sql_join j (x # xs) = Composed (x # concat (map (\<lambda>y. [j, y]) xs))"

text \<open>Python's \<open>sep.join(strings)\<close>.\<close>

fun str_join :: "string \<Rightarrow> string list \<Rightarrow> string" where
  "str_join sep [] = []"
| "str_join sep [x] = x"
| "str_join sep (x # y # ys) = x @ sep @ str_join sep (y # ys)"

text \<open>
  \<open>SQL(template).format(*args)\<close> for templates whose only fields are the automatically
  numbered \<open>{}\<close> (the only ones the repository uses): the literal pieces become \<open>SQL\<close>
  objects, each \<open>{}\<close> takes the next argument, and a missing argument raises IndexError.
\<close>

fun format_parts :: "string \<Rightarrow> string \<Rightarrow> sql list \<Rightarrow> error + sql list" where
  "format_parts lit [] args = Inr (if lit = [] then [] else [SQL lit])"
| "format_parts lit [c] args = Inr [SQL (lit @ [c])]"
| "format_parts lit (c # d # cs) args =
     (if c = CHR ''{'' \<and> d = CHR ''}'' then
        (case args of
           [] \<Rightarrow> Inl (IndexError ''tuple index out of range'')
         | a # as \<Rightarrow>
             (case format_parts [] cs as of
                Inl e \<Rightarrow> Inl e
              | Inr ps \<Rightarrow> Inr ((if lit = [] then [] else [SQL lit]) @ a # ps)))
      else format_parts (lit @ [c]) (d # cs) args)"

definition sql_format :: "string \<Rightarrow> sql list \<Rightarrow> error + sql" where
  "sql_format template args =
     (case format_parts [] template args of Inl e \<Rightarrow> Inl e | Inr ps \<Rightarrow> Inr (Composed ps))"

subsection \<open>queries.py\<close>

definition check_table_exists :: "string \<Rightarrow> sql \<times> val list" where
  "check_table_exists table_name =
     (SQL ''SELECT EXISTS (SELECT FROM information_schema.tables WHERE table_name = %s);'',
      [TextV table_name])"

definition get_table_schema :: "string \<Rightarrow> sql \<times> val list" where
  "get_table_schema table_name =
     (SQL ''SELECT column_name, data_type FROM information_schema.columns WHERE table_name = %s;'',
      [TextV table_name])"

definition fetch_primary_keys :: "string \<Rightarrow> sql \<times> val list" where
  "fetch_primary_keys table_name =
     (SQL (''SELECT a.attname FROM pg_index i '' @
           ''JOIN pg_attribute a ON a.attrelid = i.indrelid AND a.attnum = ANY(i.indkey) '' @
           ''WHERE i.indrelid = %s::regclass AND i.indisprimary;''),
      [TextV table_name])"

definition select_all_rows :: "string \<Rightarrow> error + (sql \<times> val list)" where
  "select_all_rows table_name =
     (if table_name = [] then Inl (ValueError ''Table name must be provided'')
      else (case sql_format ''SELECT * FROM {}'' [Identifier table_name] of
              Inl e \<Rightarrow> Inl e
            | Inr q \<Rightarrow> Inr (q, [])))"

definition insert_missing_rows :: "string \<Rightarrow> string list \<Rightarrow> error + sql" where
  "insert_missing_rows table_name columns =
     sql_format ''INSERT INTO {} ({}) VALUES %s ON CONFLICT DO NOTHING''
       [Identifier table_name, sql_join (SQL '', '') (map Identifier columns)]"

definition construct_where_clause :: "string list \<Rightarrow> sql" where
  "construct_where_clause primary_keys =
     (if primary_keys = [] then SQL ''TRUE''
      else sql_join (SQL '' AND '')
             (map (\<lambda>k. Composed [Identifier k, SQL ''= %s'']) primary_keys))"

subsection \<open>The database behind a connection\<close>

fun index_of :: "'a \<Rightarrow> 'a list \<Rightarrow> nat option" where
  "index_of x [] = None"
| "index_of x (y # ys) = (if x = y then Some 0 else map_option Suc (index_of x ys))"

text \<open>The value a positional row holds in a named column.\<close>

definition cell :: "string list \<Rightarrow> val list \<Rightarrow> string \<Rightarrow> val option" where
  "cell cols r c =
     (case index_of c cols of
        None \<Rightarrow> None
      | Some i \<Rightarrow> if i < length r then Some (r ! i) else None)"

text \<open>SQL equality in a WHERE clause or a unique index: NULL equals nothing.\<close>

definition sql_eq :: "val \<Rightarrow> val \<Rightarrow> bool" where
  "sql_eq a b = (a \<noteq> Null \<and> b \<noteq> Null \<and> a = b)"

definition named :: "string \<Rightarrow> table \<Rightarrow> bool" where
  "named t tb = (tbl_name tb = t)"

definition in_public :: "string \<Rightarrow> table \<Rightarrow> bool" where
  "in_public t tb = (tbl_name tb = t \<and> tbl_schema tb = ''public'')"

text \<open>An unqualified relation name (\<open>FROM "t"\<close>, \<open>INTO "t"\<close>, \<open>'t'::regclass\<close>).\<close>

definition resolve :: "database \<Rightarrow> string \<Rightarrow> table option" where
  "resolve db t = find (in_public t) db"

text \<open>
  \<^verbatim>\<open>SELECT EXISTS (SELECT FROM information_schema.tables WHERE table_name = %s)\<close>:
  the only filter is the table name, so every schema counts.
\<close>

definition db_table_exists :: "database \<Rightarrow> string \<Rightarrow> bool" where
  "db_table_exists db t = list_ex (named t) db"

text \<open>
  \<^verbatim>\<open>SELECT column_name, data_type FROM information_schema.columns WHERE table_name = %s\<close>:
  again filtered by name only, in catalog order.
\<close>

definition db_columns :: "database \<Rightarrow> string \<Rightarrow> (string \<times> string) list" where
  "db_columns db t = concat (map tbl_cols (filter (named t) db))"

text \<open>
  The primary-key lookup through \<open>pg_index\<close>: \<open>%s::regclass\<close> fails for a name that does
  not resolve.
\<close>

definition db_primary_keys :: "database \<Rightarrow> string \<Rightarrow> error + string list" where
  "db_primary_keys db t =
     (case resolve db t of
        None \<Rightarrow> Inl (ProgrammingError ''relation does not exist'')
      | Some tb \<Rightarrow> Inr (tbl_pkey tb))"

text \<open>\<^verbatim>\<open>SELECT * FROM "t"\<close>: the rows, and the column names of the result description.\<close>

definition db_select_all :: "database \<Rightarrow> string \<Rightarrow> error + (val list list \<times> string list)" where
  "db_select_all db t =
     (case resolve db t of
        None \<Rightarrow> Inl (ProgrammingError ''relation does not exist'')
      | Some tb \<Rightarrow> Inr (tbl_rows tb, map fst (tbl_cols tb)))"

text \<open>
  \<^verbatim>\<open>SELECT 1 FROM "t" WHERE "k1"= %s AND "k2"= %s ...\<close> with the parameters \<open>vs\<close>:
  the driver substitutes the parameters first (too few: IndexError, too many: TypeError),
  then the server resolves the relation and the columns and answers whether some row
  satisfies every equality.  With no condition (\<open>WHERE TRUE\<close>) every row does.
\<close>

definition row_matches :: "string list \<Rightarrow> string list \<Rightarrow> val list \<Rightarrow> val list \<Rightarrow> bool" where
  "row_matches cols ks vs r =
     list_all (\<lambda>(k, v). case cell cols r k of None \<Rightarrow> False | Some x \<Rightarrow> sql_eq x v) (zip ks vs)"

definition db_probe :: "database \<Rightarrow> string \<Rightarrow> string list \<Rightarrow> val list \<Rightarrow> error + bool" where
  "db_probe db t ks vs =
     (if length vs < length ks then Inl (IndexError ''list index out of range'')
      else if length ks < length vs then
        Inl (TypeError ''not all arguments converted during string formatting'')
      else (case resolve db t of
              None \<Rightarrow> Inl (ProgrammingError ''relation does not exist'')
            | Some tb \<Rightarrow>
                if list_all (\<lambda>k. k \<in> set (map fst (tbl_cols tb))) ks
                then Inr (list_ex (row_matches (map fst (tbl_cols tb)) ks vs) (tbl_rows tb))
                else Inl (ProgrammingError ''column does not exist'')))"

text \<open>
  \<^verbatim>\<open>CREATE TABLE "t" (c1 type1, c2 type2, ...)\<close>: a new relation in schema \<open>public\<close>
  with those columns, no constraint and no row.
\<close>

definition new_table :: "string \<Rightarrow> (string \<times> string) list \<Rightarrow> table" where
  "new_table t cols =
     \<lparr>tbl_schema = ''public'', tbl_name = t, tbl_cols = cols, tbl_pkey = [],
      tbl_unique = [], tbl_notnull = [], tbl_rows = []\<rparr>"

definition db_create_table :: "database \<Rightarrow> string \<Rightarrow> (string \<times> string) list \<Rightarrow> error + database" where
  "db_create_table db t cols =
     (if resolve db t \<noteq> None then Inl (ProgrammingError ''relation already exists'')
      else if distinct (map fst cols) then Inr (db @ [new_table t cols])
      else Inl (ProgrammingError ''column specified more than once''))"

text \<open>
  \<^verbatim>\<open>INSERT INTO "t" (columns) VALUES ...\<close>, with or without \<^verbatim>\<open>ON CONFLICT DO NOTHING\<close>
  (\<open>do_nothing\<close>), row by row: a column the statement does not list is NULL; a NULL in a
  NOT NULL column is an integrity error (the constraints of the tuple are checked before
  the unique indexes); a row that equals an existing row, or one inserted earlier by the
  same statement, on every column of some uniqueness constraint is skipped when the
  statement says \<^verbatim>\<open>ON CONFLICT DO NOTHING\<close> and is an integrity error (a unique
  violation) when it does not; any other row is appended.
\<close>

definition new_row :: "string list \<Rightarrow> string list \<Rightarrow> val list \<Rightarrow> val list" where
  "new_row tcols icols r =
     map (\<lambda>c. case cell icols r c of None \<Rightarrow> Null | Some v \<Rightarrow> v) tcols"

definition violates_notnull :: "table \<Rightarrow> val list \<Rightarrow> bool" where
  "violates_notnull tb r =
     list_ex (\<lambda>c. cell (map fst (tbl_cols tb)) r c = Some Null) (tbl_notnull tb)"

definition same_on :: "string list \<Rightarrow> string list \<Rightarrow> val list \<Rightarrow> val list \<Rightarrow> bool" where
  "same_on cols u old new =
     list_all (\<lambda>c. case cell cols old c of
                     None \<Rightarrow> False
                   | Some a \<Rightarrow> (case cell cols new c of None \<Rightarrow> False | Some b \<Rightarrow> sql_eq a b)) u"

definition conflicts :: "table \<Rightarrow> val list \<Rightarrow> bool" where
  "conflicts tb r =
     list_ex (\<lambda>u. list_ex (\<lambda>old. same_on (map fst (tbl_cols tb)) u old r) (tbl_rows tb))
       (tbl_unique tb)"

fun insert_rows :: "table \<Rightarrow> string list \<Rightarrow> bool \<Rightarrow> val list list \<Rightarrow> error + table" where
  "insert_rows tb cols do_nothing [] = Inr tb"
| "insert_rows tb cols do_nothing (r # rs) =
     (if length r \<noteq> length cols then
        Inl (ProgrammingError ''INSERT has a different number of expressions than target columns'')
      else if violates_notnull tb (new_row (map fst (tbl_cols tb)) cols r) then
        Inl (IntegrityError ''null value violates not-null constraint'')
      else if conflicts tb (new_row (map fst (tbl_cols tb)) cols r) then
        (if do_nothing then insert_rows tb cols do_nothing rs
         else Inl (IntegrityError ''duplicate key value violates unique constraint''))
      else
        insert_rows (tb\<lparr>tbl_rows := tbl_rows tb @ [new_row (map fst (tbl_cols tb)) cols r]\<rparr>)
          cols do_nothing rs)"

definition db_insert :: "database \<Rightarrow> string \<Rightarrow> string list \<Rightarrow> bool \<Rightarrow> val list list
    \<Rightarrow> error + database" where
  "db_insert db t cols do_nothing rows =
     (case resolve db t of
        None \<Rightarrow> Inl (ProgrammingError ''relation does not exist'')
      | Some tb \<Rightarrow>
          if \<not> list_all (\<lambda>c. c \<in> set (map fst (tbl_cols tb))) cols then
            Inl (ProgrammingError ''column of relation does not exist'')
          else if \<not> distinct cols then
            Inl (ProgrammingError ''column specified more than once'')
          else (case insert_rows tb cols do_nothing rows of
                  Inl e \<Rightarrow> Inl e
                | Inr tb' \<Rightarrow> Inr (map (\<lambda>x. if in_public t x then tb' else x) db)))"

text \<open>
  \<^verbatim>\<open>SELECT table_name FROM information_schema.tables WHERE table_schema = 'public'\<close>.
\<close>

definition db_public_tables :: "database \<Rightarrow> string list" where
  "db_public_tables db = map tbl_name (filter (\<lambda>tb. tbl_schema tb = ''public'') db)"

subsection \<open>Connections\<close>

text \<open>
  A connection sees the database as its open transaction has changed it (\<open>conn_db\<close>)
  and remembers the last committed state; it records every call the client makes on it
  or on one of its cursors.
\<close>

datatype call =
    Execute sql "val list"
  | ExecuteValues sql "val list list"
  | Commit
  | Rollback
  | Close

record connection =
  conn_db :: database
  conn_committed :: database
  conn_closed :: bool
  conn_calls :: "call list"

definition record_call :: "connection \<Rightarrow> call \<Rightarrow> connection" where
  "record_call c k = c\<lparr>conn_calls := conn_calls c @ [k]\<rparr>"

definition commit :: "connection \<Rightarrow> connection" where
  "commit c = (record_call c Commit)\<lparr>conn_committed := conn_db c\<rparr>"

definition rollback :: "connection \<Rightarrow> connection" where
  "rollback c = (record_call c Rollback)\<lparr>conn_db := conn_committed c\<rparr>"

definition close :: "connection \<Rightarrow> connection" where
  "close c = (record_call c Close)\<lparr>conn_closed := True\<rparr>"

text \<open>
  What the server reads in an INSERT statement built from composable objects: the relation,
  the column list (identifiers separated by \<open>", "\<close>; an empty list is a syntax error), and
  whether the statement ends in \<^verbatim>\<open>ON CONFLICT DO NOTHING\<close>.  Anything else is not an
  INSERT it accepts.
\<close>

fun joined_identifiers :: "sql list \<Rightarrow> string list option" where
  "joined_identifiers [Identifier c] = Some [c]"
| "joined_identifiers (Identifier c # SQL sep # rest) =
     (if sep = '', '' then map_option ((#) c) (joined_identifiers rest) else None)"
| "joined_identifiers xs = None"

fun parse_insert :: "sql \<Rightarrow> (string \<times> string list \<times> bool) option" where
  "parse_insert (Composed [SQL a, Identifier t, SQL b, Composed cs, SQL tail]) =
     (if a = ''INSERT INTO '' \<and> b = '' ('' then
        (case joined_identifiers cs of
           None \<Rightarrow> None
         | Some cols \<Rightarrow>
             if tail = '') VALUES %s ON CONFLICT DO NOTHING'' then Some (t, cols, True)
             else if tail = '') VALUES %s'' then Some (t, cols, False)
             else None)
      else None)"
| "parse_insert q = None"

text \<open>
  \<open>execute_values(cur, stmt, rows)\<close>: the driver sends the rows in pages, each page one
  INSERT of the same transaction; the pages together process the rows one by one in their
  order, which is what \<open>db_insert\<close> does for the whole list, under the conflict policy
  the statement spells out.  A failed statement changes nothing.
\<close>

definition execute_values :: "connection \<Rightarrow> sql \<Rightarrow> val list list \<Rightarrow> (error + unit) \<times> connection" where
  "execute_values c stmt rows =
     (case parse_insert stmt of
        None \<Rightarrow> (Inl (ProgrammingError ''syntax error''), record_call c (ExecuteValues stmt rows))
      | Some (t, cols, do_nothing) \<Rightarrow>
          (case db_insert (conn_db c) t cols do_nothing rows of
             Inl e \<Rightarrow> (Inl e, record_call c (ExecuteValues stmt rows))
           | Inr db' \<Rightarrow> (Inr (), (record_call c (ExecuteValues stmt rows))\<lparr>conn_db := db'\<rparr>)))"

subsection \<open>syncDB.py: class PostgresDatabaseSync\<close>

datatype level = DEBUG | INFO | WARNING | ERROR

type_synonym log = "(level \<times> string) list"

record db_sync =
  source_conn :: connection
  target_conn :: connection
  logger :: log

definition log_msg :: "level \<Rightarrow> string \<Rightarrow> db_sync \<Rightarrow> db_sync" where
  "log_msg lv m s = s\<lparr>logger := logger s @ [(lv, m)]\<rparr>"

text \<open>Decimal digits of a natural number, for \<open>len(missing_rows)\<close> in a log line.\<close>

fun digits :: "nat \<Rightarrow> nat \<Rightarrow> string" where
  "digits 0 n = []"
| "digits (Suc fuel) n =
     (if n < 10 then [char_of (48 + n)]
      else digits fuel (n div 10) @ [char_of (48 + n mod 10)])"

definition str_nat :: "nat \<Rightarrow> string" where
  "str_nat n = digits (Suc n) n"

definition check_and_create_table :: "db_sync \<Rightarrow> string \<Rightarrow> (error + unit) \<times> db_sync" where
  "check_and_create_table s table_name =
     (let tc = record_call (target_conn s)
                 (Execute (fst (check_table_exists table_name)) (snd (check_table_exists table_name)))
      in if \<not> db_table_exists (conn_db tc) table_name then
           (let sc = record_call (source_conn s)
                       (Execute (fst (get_table_schema table_name)) (snd (get_table_schema table_name)));
                columns = db_columns (conn_db sc) table_name;
                columns_sql = str_join '', '' (map (\<lambda>col. fst col @ '' '' @ snd col) columns);
                s1 = s\<lparr>source_conn := sc, target_conn := tc\<rparr>
            in case sql_format ''CREATE TABLE {} ({})'' [Identifier table_name, SQL columns_sql] of
                 Inl e \<Rightarrow> (Inl e, s1)
               | Inr create_stmt \<Rightarrow>
                   (case db_create_table (conn_db tc) table_name columns of
                      Inl e \<Rightarrow> (Inl e, s1\<lparr>target_conn := record_call tc (Execute create_stmt [])\<rparr>)
                    | Inr db' \<Rightarrow>
                        (Inr (),
                         log_msg INFO (''Copied schema for '' @ table_name @ '' to target database.'')
                           (s1\<lparr>target_conn :=
                                 commit ((record_call tc (Execute create_stmt []))\<lparr>conn_db := db'\<rparr>)\<rparr>))))
         else
           (Inr (),
            log_msg INFO (table_name @ '' already exists in target database.'')
              (s\<lparr>target_conn := tc\<rparr>)))"

definition get_primary_keys :: "db_sync \<Rightarrow> string \<Rightarrow> (error + string list) \<times> db_sync" where
  "get_primary_keys s table_name =
     (let sc = record_call (source_conn s)
                 (Execute (fst (fetch_primary_keys table_name)) (snd (fetch_primary_keys table_name)))
      in (db_primary_keys (conn_db sc) table_name, s\<lparr>source_conn := sc\<rparr>))"

text \<open>
  The dictionary \<open>{pk: row[source_columns.index(pk)] for pk in primary_keys}\<close>: a key met
  again keeps its place and takes the new value; \<open>index\<close> raises ValueError for a name
  that is not a column, the tuple raises IndexError for a position it does not have.
\<close>

fun dict_set :: "('k \<times> 'v) list \<Rightarrow> 'k \<Rightarrow> 'v \<Rightarrow> ('k \<times> 'v) list" where
  "dict_set [] k v = [(k, v)]"
| "dict_set (p # ps) k v = (if fst p = k then (k, v) # ps else p # dict_set ps k v)"

fun pk_values :: "string list \<Rightarrow> string list \<Rightarrow> val list \<Rightarrow> (string \<times> val) list
    \<Rightarrow> error + (string \<times> val) list" where
  "pk_values [] source_columns row d = Inr d"
| "pk_values (pk # pks) source_columns row d =
     (case index_of pk source_columns of
        None \<Rightarrow> Inl (ValueError ''is not in list'')
      | Some i \<Rightarrow>
          if i < length row then pk_values pks source_columns row (dict_set d pk (row ! i))
          else Inl (IndexError ''tuple index out of range''))"

text \<open>The body of the loop \<open>for row in source_rows\<close>, over the rows still to scan.\<close>

fun probe_rows :: "connection \<Rightarrow> string \<Rightarrow> string list \<Rightarrow> string list \<Rightarrow> val list list
    \<Rightarrow> val list list \<Rightarrow> (error + val list list) \<times> connection" where
  "probe_rows tc table_name primary_keys source_columns [] missing_rows = (Inr missing_rows, tc)"
| "probe_rows tc table_name primary_keys source_columns (row # rows) missing_rows =
     (case pk_values primary_keys source_columns row [] of
        Inl e \<Rightarrow> (Inl e, tc)
      | Inr d \<Rightarrow>
          (case sql_format ''SELECT 1 FROM {} WHERE {}''
                  [Identifier table_name, construct_where_clause primary_keys] of
             Inl e \<Rightarrow> (Inl e, tc)
           | Inr q \<Rightarrow>
               (case db_probe (conn_db tc) table_name primary_keys (map snd d) of
                  Inl e \<Rightarrow> (Inl e, record_call tc (Execute q (map snd d)))
                | Inr found \<Rightarrow>
                    probe_rows (record_call tc (Execute q (map snd d))) table_name primary_keys
                      source_columns rows
                      (if found then missing_rows else missing_rows @ [row]))))"

definition get_missing_rows :: "db_sync \<Rightarrow> string
    \<Rightarrow> (error + (val list list \<times> string list)) \<times> db_sync" where
  "get_missing_rows s table_name =
     (case get_primary_keys s table_name of
        (Inl e, s1) \<Rightarrow> (Inl e, s1)
      | (Inr primary_keys, s1) \<Rightarrow>
          if primary_keys = [] then
            (Inr ([], []),
             log_msg ERROR (''No primary keys found for table '' @ table_name @ ''.'') s1)
          else
            (case select_all_rows table_name of
               Inl e \<Rightarrow> (Inl e, s1)
             | Inr (select_query, params) \<Rightarrow>
                 (let sc = record_call (source_conn s1) (Execute select_query params);
                      s2 = s1\<lparr>source_conn := sc\<rparr>
                  in case db_select_all (conn_db sc) table_name of
                       Inl e \<Rightarrow> (Inl e, s2)
                     | Inr (source_rows, source_columns) \<Rightarrow>
                         (case probe_rows (target_conn s2) table_name primary_keys
                                 source_columns source_rows [] of
                            (Inl e, tc) \<Rightarrow> (Inl e, s2\<lparr>target_conn := tc\<rparr>)
                          | (Inr missing_rows, tc) \<Rightarrow>
                              (Inr (missing_rows, source_columns), s2\<lparr>target_conn := tc\<rparr>)))))"

text \<open>The \<open>try\<close> block of \<open>sync_table\<close>.\<close>

definition sync_table_try :: "db_sync \<Rightarrow> string \<Rightarrow> (error + unit) \<times> db_sync" where
  "sync_table_try s table_name =
     (case check_and_create_table s table_name of
        (Inl e, s1) \<Rightarrow> (Inl e, s1)
      | (Inr u, s1) \<Rightarrow>
          (case get_missing_rows s1 table_name of
             (Inl e, s2) \<Rightarrow> (Inl e, s2)
           | (Inr (missing_rows, source_columns), s2) \<Rightarrow>
               if missing_rows = [] then
                 (Inr (), log_msg INFO (''No missing rows to sync for '' @ table_name) s2)
               else
                 (case insert_missing_rows table_name source_columns of
                    Inl e \<Rightarrow> (Inl e, s2)
                  | Inr insert_stmt \<Rightarrow>
                      (case execute_values (target_conn s2) insert_stmt missing_rows of
                         (Inl e, tc) \<Rightarrow> (Inl e, s2\<lparr>target_conn := tc\<rparr>)
                       | (Inr u, tc) \<Rightarrow>
                           (Inr (),
                            log_msg INFO (''Synced table '' @ table_name @ '' successfully with '' @
                                          str_nat (length missing_rows) @ '' rows.'')
                              (s2\<lparr>target_conn := commit tc\<rparr>))))))"

text \<open>\<open>sync_table\<close>: the \<open>try\<close> block with its two handlers.\<close>

definition sync_table :: "db_sync \<Rightarrow> string \<Rightarrow> (error + unit) \<times> db_sync" where
  "sync_table s table_name =
     (case sync_table_try s table_name of
        (Inr u, s1) \<Rightarrow> (Inr (), s1)
      | (Inl e, s1) \<Rightarrow>
          if is_integrity_error e then
            (Inr (),
             log_msg WARNING (''Integrity error syncing '' @ table_name @ '': Duplicate rows detected.'')
               (s1\<lparr>target_conn := rollback (target_conn s1)\<rparr>))
          else
            (Inl e,
             log_msg ERROR (''Unexpected error syncing '' @ table_name @ '': '' @ str_error e)
               (s1\<lparr>target_conn := rollback (target_conn s1)\<rparr>)))"

text \<open>The loop \<open>for table_name in tables\<close> of \<open>sync_all_tables\<close>.\<close>

fun sync_tables :: "db_sync \<Rightarrow> string list \<Rightarrow> (error + unit) \<times> db_sync" where
  "sync_tables s [] = (Inr (), s)"
| "sync_tables s (table_name # tables) =
     (case sync_table s table_name of
        (Inl e, s1) \<Rightarrow> (Inl e, s1)
      | (Inr u, s1) \<Rightarrow> sync_tables s1 tables)"

definition sync_all_tables :: "db_sync \<Rightarrow> (error + unit) \<times> db_sync" where
  "sync_all_tables s =
     (let sc = record_call (source_conn s)
                 (Execute (SQL ''SELECT table_name FROM information_schema.tables WHERE table_schema = 'public';'') []);
          tables = db_public_tables (conn_db sc)
      in case sync_tables (s\<lparr>source_conn := sc\<rparr>) tables of
           (Inl e, s1) \<Rightarrow> (Inl e, log_msg ERROR (''Failed to sync all tables: '' @ str_error e) s1)
         | (Inr u, s1) \<Rightarrow> (Inr (), log_msg INFO ''All tables synced successfully.'' s1))"

definition close_connections :: "db_sync \<Rightarrow> db_sync" where
  "close_connections s = s\<lparr>source_conn := close (source_conn s), target_conn := close (target_conn s)\<rparr>"

subsection \<open>Opening the connections, and main\<close>

text \<open>
  A \<open>DatabaseConfig\<close> is reduced to what the synchroniser reads of it: the database name
  for the log, and the server its parameters designate (\<open>None\<close>: the server cannot be
  reached within the timeout).  Reading the environment files is outside the embedding:
  \<open>main\<close> takes the outcome of each \<open>DatabaseConfig(path, logger)\<close> as an argument.
\<close>

record config =
  db_name_var :: string
  server :: "database option"

text \<open>What a run leaves behind: the connections it opened, and the log.\<close>

record run =
  run_source :: "connection option"
  run_target :: "connection option"
  run_log :: log

definition new_connection :: "database \<Rightarrow> connection" where
  "new_connection db = \<lparr>conn_db = db, conn_committed = db, conn_closed = False, conn_calls = []\<rparr>"

definition connect :: "config \<Rightarrow> log \<Rightarrow> (error + connection) \<times> log" where
  "connect cfg lg =
     (case server cfg of
        None \<Rightarrow>
          (Inl (OperationalError ''could not connect to server''),
           lg @ [(ERROR, ''Failed to connect: '' @ ''could not connect to server'')])
      | Some db \<Rightarrow>
          (Inr (new_connection db),
           lg @ [(DEBUG, ''Connected to database '' @ db_name_var cfg)]))"

text \<open>\<open>PostgresDatabaseSync.__init__\<close>: the target is connected first, then the source.\<close>

definition init :: "config \<Rightarrow> config \<Rightarrow> log \<Rightarrow> (error \<times> run) + db_sync" where
  "init source_config target_config lg =
     (case connect target_config
             (lg @ [(DEBUG, ''PostgresDatabaseSync Connecting to target db: '' @
                            db_name_var target_config)]) of
        (Inl e, lg1) \<Rightarrow> Inl (e, \<lparr>run_source = None, run_target = None, run_log = lg1\<rparr>)
      | (Inr tc, lg1) \<Rightarrow>
          (case connect source_config
                  (lg1 @ [(DEBUG, ''PostgresDatabaseSync Connecting to source db: '' @
                                  db_name_var source_config)]) of
             (Inl e, lg2) \<Rightarrow> Inl (e, \<lparr>run_source = None, run_target = Some tc, run_log = lg2\<rparr>)
           | (Inr sc, lg2) \<Rightarrow>
               Inr \<lparr>source_conn = sc, target_conn = tc,
                    logger = lg2 @ [(DEBUG, ''PostgresDatabaseSync connected successfully.'')]\<rparr>))"

definition main :: "error + config \<Rightarrow> error + config \<Rightarrow> (error + unit) \<times> run" where
  "main prod_loaded dev_loaded =
     (case prod_loaded of
        Inl e \<Rightarrow> (Inl e, \<lparr>run_source = None, run_target = None, run_log = [(INFO, ''Syncing databases'')]\<rparr>)
      | Inr prod_db_config \<Rightarrow>
          (case dev_loaded of
             Inl e \<Rightarrow>
               (Inl e, \<lparr>run_source = None, run_target = None, run_log = [(INFO, ''Syncing databases'')]\<rparr>)
           | Inr dev_db_config \<Rightarrow>
               (case init prod_db_config dev_db_config [(INFO, ''Syncing databases'')] of
                  Inl (e, r) \<Rightarrow> (Inl e, r)
                | Inr db_sync \<Rightarrow>
                    (case sync_all_tables db_sync of
                       (res, s) \<Rightarrow>
                         (res, \<lparr>run_source = Some (source_conn s), run_target = Some (target_conn s),
                                run_log = logger s\<rparr>)))))"

subsection \<open>Auxiliary notions used in the statements\<close>

text \<open>The statement \<open>create_stmt\<close> that \<open>check_and_create_table\<close> builds from the catalog rows.\<close>

definition create_stmt :: "string \<Rightarrow> (string \<times> string) list \<Rightarrow> sql" where
  "create_stmt t cols =
     Composed [SQL ''CREATE TABLE '', Identifier t, SQL '' ('',
               SQL (str_join '', '' (map (\<lambda>col. fst col @ '' '' @ snd col) cols)), SQL '')'']"

text \<open>The statement \<open>insert_missing_rows\<close> builds.\<close>

definition insert_stmt :: "string \<Rightarrow> string list \<Rightarrow> sql" where
  "insert_stmt t cols =
     Composed [SQL ''INSERT INTO '', Identifier t, SQL '' ('',
               sql_join (SQL '', '') (map Identifier cols),
               SQL '') VALUES %s ON CONFLICT DO NOTHING'']"

text \<open>
  Every bulk insert among the calls is an insert into \<open>t\<close> that says
  \<^verbatim>\<open>ON CONFLICT DO NOTHING\<close>, with the text
  \<^verbatim>\<open>INSERT INTO "t" ("c1", "c2", ...) VALUES %s ON CONFLICT DO NOTHING\<close>.
\<close>

definition do_nothing_inserts :: "string \<Rightarrow> call list \<Rightarrow> bool" where
  "do_nothing_inserts t cs =
     list_all (\<lambda>c. case c of
                     ExecuteValues q rows \<Rightarrow>
                       (case parse_insert q of
                          None \<Rightarrow> False
                        | Some (t', cols, do_nothing) \<Rightarrow>
                            t' = t \<and> do_nothing \<and>
                            as_string q =
                              ''INSERT INTO '' @ quote_ident t @ '' ('' @
                              str_join '', '' (map quote_ident cols) @
                              '') VALUES %s ON CONFLICT DO NOTHING'')
                   | Execute q ps \<Rightarrow> True
                   | Commit \<Rightarrow> True
                   | Rollback \<Rightarrow> True
                   | Close \<Rightarrow> True) cs"

text \<open>A synchroniser freshly connected to a source and a target database.\<close>

definition sync_of :: "database \<Rightarrow> database \<Rightarrow> db_sync" where
  "sync_of src tgt =
     \<lparr>source_conn = new_connection src, target_conn = new_connection tgt, logger = []\<rparr>"

text \<open>
  The primary-key values of a positional row, read through the column list it travels
  with (\<open>None\<close> when a key column is missing from the list or the row is too short).
\<close>

fun key_of :: "string list \<Rightarrow> string list \<Rightarrow> val list \<Rightarrow> val list option" where
  "key_of cols [] row = Some []"
| "key_of cols (k # ks) row =
     (case cell cols row k of
        None \<Rightarrow> None
      | Some v \<Rightarrow> map_option ((#) v) (key_of cols ks row))"

text \<open>Table \<open>t\<close> of the database holds a row whose key columns \<open>pks\<close> have the values \<open>kv\<close>.\<close>

definition present_in :: "database \<Rightarrow> string \<Rightarrow> string list \<Rightarrow> val list \<Rightarrow> bool" where
  "present_in db t pks kv =
     (case resolve db t of
        None \<Rightarrow> False
      | Some tt \<Rightarrow> list_ex (\<lambda>r. key_of (map fst (tbl_cols tt)) pks r = Some kv) (tbl_rows tt))"

text \<open>
  Every row of source table \<open>t\<close> is present in target table \<open>t\<close>, keyed by the values of
  the source's primary-key columns.
\<close>

definition all_rows_present :: "database \<Rightarrow> database \<Rightarrow> string \<Rightarrow> bool" where
  "all_rows_present src tgt t =
     (case resolve src t of
        None \<Rightarrow> False
      | Some st \<Rightarrow>
          list_all (\<lambda>row. case key_of (map fst (tbl_cols st)) (tbl_pkey st) row of
                            None \<Rightarrow> False
                          | Some kv \<Rightarrow> present_in tgt t (tbl_pkey st) kv)
            (tbl_rows st))"

text \<open>
  Every uniqueness constraint of table \<open>t\<close> (if the database has it) includes all the
  columns \<open>pks\<close>: a conflict on it is a conflict on the key.
\<close>

definition uniques_cover :: "database \<Rightarrow> string \<Rightarrow> string list \<Rightarrow> bool" where
  "uniques_cover db t pks =
     (case resolve db t of
        None \<Rightarrow> True
      | Some tt \<Rightarrow> list_all (\<lambda>u. list_all (\<lambda>k. k \<in> set u) pks) (tbl_unique tt))"

text \<open>No row of table \<open>t\<close> has a NULL in a primary-key column (what a primary key enforces).\<close>

definition keys_not_null :: "database \<Rightarrow> string \<Rightarrow> bool" where
  "keys_not_null db t =
     (case resolve db t of
        None \<Rightarrow> False
      | Some st \<Rightarrow>
          list_all (\<lambda>row. case key_of (map fst (tbl_cols st)) (tbl_pkey st) row of
                            None \<Rightarrow> False
                          | Some kv \<Rightarrow> Null \<notin> set kv)
            (tbl_rows st))"

text \<open>
  What the loop of \<open>get_missing_rows\<close> decides for one source row: the probe with the
  values of the row's key columns finds nothing.
\<close>

definition absent_in :: "database \<Rightarrow> string \<Rightarrow> string list \<Rightarrow> string list \<Rightarrow> val list \<Rightarrow> bool" where
  "absent_in db t pks cols row =
     (case pk_values pks cols row [] of
        Inl e \<Rightarrow> False
      | Inr d \<Rightarrow> db_probe db t pks (map snd d) = Inr False)"

text \<open>The probe that \<open>get_missing_rows\<close> sends for every source row.\<close>

definition probe_stmt :: "string \<Rightarrow> string list \<Rightarrow> sql" where
  "probe_stmt t pks =
     Composed [SQL ''SELECT 1 FROM '', Identifier t, SQL '' WHERE '', construct_where_clause pks]"

text \<open>The synchroniser after \<open>sync_all_tables\<close> has listed the tables of the source.\<close>

definition listed :: "db_sync \<Rightarrow> db_sync" where
  "listed s0 =
     s0\<lparr>source_conn := record_call (source_conn s0)
          (Execute (SQL ''SELECT table_name FROM information_schema.tables WHERE table_schema = 'public';'') [])\<rparr>"

subsection \<open>Example databases\<close>

text \<open>
  A source table with a primary key; a target table of the same name that also declares
  \<open>name\<close> NOT NULL; a table of the same name in another schema; a table without a
  primary key.
\<close>

definition users_source :: table where
  "users_source =
     \<lparr>tbl_schema = ''public'', tbl_name = ''users'',
      tbl_cols = [(''id'', ''integer''), (''name'', ''text'')],
      tbl_pkey = [''id''], tbl_unique = [''id''] # [], tbl_notnull = [''id''],
      tbl_rows = [IntV 1, TextV ''a''] # [IntV 2, Null] # []\<rparr>"

definition users_strict :: table where
  "users_strict =
     \<lparr>tbl_schema = ''public'', tbl_name = ''users'',
      tbl_cols = [(''id'', ''integer''), (''name'', ''text'')],
      tbl_pkey = [''id''], tbl_unique = [''id''] # [], tbl_notnull = [''id'', ''name''],
      tbl_rows = [IntV 1, TextV ''old''] # []\<rparr>"

definition users_archived :: table where
  "users_archived =
     \<lparr>tbl_schema = ''archive'', tbl_name = ''users'',
      tbl_cols = [(''id'', ''integer'')],
      tbl_pkey = [], tbl_unique = [], tbl_notnull = [],
      tbl_rows = []\<rparr>"



text \<open>A target table whose \<open>name\<close> column is unique, besides the key.\<close>

definition users_named :: table where
  "users_named =
     \<lparr>tbl_schema = ''public'', tbl_name = ''users'',
      tbl_cols = [(''id'', ''integer''), (''name'', ''text'')],
      tbl_pkey = [''id''], tbl_unique = [''id''] # [''name''] # [], tbl_notnull = [''id''],
      tbl_rows = [IntV 9, TextV ''a''] # []\<rparr>"

text \<open>A target table that already holds a row with key 1.\<close>

definition users_target :: table where
  "users_target =
     \<lparr>tbl_schema = ''public'', tbl_name = ''users'',
      tbl_cols = [(''id'', ''integer''), (''name'', ''text'')],
      tbl_pkey = [''id''], tbl_unique = [''id''] # [], tbl_notnull = [''id''],
      tbl_rows = [IntV 1, TextV ''old''] # []\<rparr>"

text \<open>Loaded configurations: a production server, and two development servers.\<close>

definition prod_config :: config where
  "prod_config = \<lparr>db_name_var = ''prod'', server = Some [users_source]\<rparr>"

definition dev_config :: config where
  "dev_config = \<lparr>db_name_var = ''dev'', server = Some []\<rparr>"

definition dev_archived_config :: config where
  "dev_archived_config = \<lparr>db_name_var = ''dev'', server = Some [users_archived]\<rparr>"

section \<open>Properties\<close>

subsection \<open>Statements built by format, and frame lemmas\<close>

lemma create_format:
  "sql_format ''CREATE TABLE {} ({})'' [a, b] =
     Inr (Composed [SQL ''CREATE TABLE '', a, SQL '' ('', b, SQL '')''])"
  by (simp add: sql_format_def)

lemma probe_format:
  "sql_format ''SELECT 1 FROM {} WHERE {}'' [a, b] =
     Inr (Composed [SQL ''SELECT 1 FROM '', a, SQL '' WHERE '', b])"
  by (simp add: sql_format_def)

lemma select_format:
  "sql_format ''SELECT * FROM {}'' [a] = Inr (Composed [SQL ''SELECT * FROM '', a])"
  by (simp add: sql_format_def)

lemma insert_format:
  "sql_format ''INSERT INTO {} ({}) VALUES %s ON CONFLICT DO NOTHING'' [a, b] =
     Inr (Composed [SQL ''INSERT INTO '', a, SQL '' ('', b, SQL '') VALUES %s ON CONFLICT DO NOTHING''])"
  by (simp add: sql_format_def)

lemma insert_missing_rows_stmt: "insert_missing_rows t cols = Inr (insert_stmt t cols)"
  by (simp add: insert_missing_rows_def insert_format insert_stmt_def)

lemma joined_identifiers_joined:
  "joined_identifiers (Identifier c # concat (map (\<lambda>y. [SQL '', '', y]) (map Identifier cs)))
     = Some (c # cs)"
  by (induction cs arbitrary: c) simp_all

lemma parse_insert_stmt:
  "parse_insert (insert_stmt t cols) = (if cols = [] then None else Some (t, cols, True))"
proof (cases cols)
  case Nil
  then show ?thesis by (simp add: insert_stmt_def)
next
  case (Cons c cs)
  then show ?thesis
    using joined_identifiers_joined [of c cs] by (simp add: insert_stmt_def)
qed

lemma execute_values_insert_stmt:
  "execute_values c (insert_stmt t cols) rows =
     (if cols = [] then
        (Inl (ProgrammingError ''syntax error''),
         record_call c (ExecuteValues (insert_stmt t cols) rows))
      else (case db_insert (conn_db c) t cols True rows of
              Inl e \<Rightarrow> (Inl e, record_call c (ExecuteValues (insert_stmt t cols) rows))
            | Inr db' \<Rightarrow>
                (Inr (), (record_call c (ExecuteValues (insert_stmt t cols) rows))\<lparr>conn_db := db'\<rparr>)))"
  by (simp add: execute_values_def parse_insert_stmt)

lemma cact_exists:
  "db_table_exists (conn_db (target_conn s)) t \<Longrightarrow>
   check_and_create_table s t =
     (Inr (), log_msg INFO (t @ '' already exists in target database.'')
        (s\<lparr>target_conn := record_call (target_conn s)
              (Execute (fst (check_table_exists t)) (snd (check_table_exists t)))\<rparr>))"
  by (simp add: check_and_create_table_def Let_def record_call_def)

lemma cact_absent:
  "\<not> db_table_exists (conn_db (target_conn s)) t \<Longrightarrow>
   check_and_create_table s t =
     (case db_create_table (conn_db (target_conn s)) t (db_columns (conn_db (source_conn s)) t) of
        Inl e \<Rightarrow>
          (Inl e,
           s\<lparr>source_conn := record_call (source_conn s)
                 (Execute (fst (get_table_schema t)) (snd (get_table_schema t))),
             target_conn := record_call (record_call (target_conn s)
                 (Execute (fst (check_table_exists t)) (snd (check_table_exists t))))
                 (Execute (create_stmt t (db_columns (conn_db (source_conn s)) t)) [])\<rparr>)
      | Inr db' \<Rightarrow>
          (Inr (),
           log_msg INFO (''Copied schema for '' @ t @ '' to target database.'')
             (s\<lparr>source_conn := record_call (source_conn s)
                   (Execute (fst (get_table_schema t)) (snd (get_table_schema t))),
               target_conn := commit ((record_call (record_call (target_conn s)
                   (Execute (fst (check_table_exists t)) (snd (check_table_exists t))))
                   (Execute (create_stmt t (db_columns (conn_db (source_conn s)) t)) []))
                   \<lparr>conn_db := db'\<rparr>)\<rparr>)))"
  unfolding check_and_create_table_def Let_def create_format create_stmt_def
  by (simp add: record_call_def split: sum.splits)

lemma probe_rows_frame:
  "probe_rows tc t pks cols rows m = (r, tc') \<Longrightarrow>
   conn_db tc' = conn_db tc \<and> conn_committed tc' = conn_committed tc \<and> conn_closed tc' = conn_closed tc"
proof (induction rows arbitrary: tc m)
  case Nil
  then show ?case by simp
next
  case (Cons row rows)
  show ?case
  proof (cases "pk_values pks cols row []")
    case (Inl e)
    with Cons.prems show ?thesis by simp
  next
    case (Inr d)
    show ?thesis
    proof (cases "db_probe (conn_db tc) t pks (map snd d)")
      case (Inl e)
      with Inr Cons.prems show ?thesis by (auto simp: probe_format record_call_def)
    next
      case found: (Inr found)
      from Cons.prems Inr found
      have "probe_rows (record_call tc (Execute (Composed [SQL ''SELECT 1 FROM '', Identifier t, SQL '' WHERE '', construct_where_clause pks]) (map snd d)))
              t pks cols rows (if found then m else m @ [row]) = (r, tc')"
        by (simp add: probe_format)
      from Cons.IH [OF this] show ?thesis by (simp add: record_call_def)
    qed
  qed
qed

lemma get_missing_rows_frame:
  assumes "get_missing_rows s t = (r, s')"
  shows "conn_db (target_conn s') = conn_db (target_conn s)"
    and "conn_committed (target_conn s') = conn_committed (target_conn s)"
    and "conn_db (source_conn s') = conn_db (source_conn s)"
    and "conn_committed (source_conn s') = conn_committed (source_conn s)"
    and "conn_closed (target_conn s') = conn_closed (target_conn s)"
    and "conn_closed (source_conn s') = conn_closed (source_conn s)"
  using assms
  by (auto simp: get_missing_rows_def get_primary_keys_def Let_def log_msg_def record_call_def
      split: sum.splits prod.splits if_splits dest: probe_rows_frame)

lemma check_and_create_table_source_db:
  "check_and_create_table s t = (r, s') \<Longrightarrow>
   conn_db (source_conn s') = conn_db (source_conn s) \<and>
   conn_committed (source_conn s') = conn_committed (source_conn s) \<and>
   conn_closed (source_conn s') = conn_closed (source_conn s) \<and>
   conn_closed (target_conn s') = conn_closed (target_conn s)"
  by (cases "db_table_exists (conn_db (target_conn s)) t")
     (auto simp: cact_exists cact_absent log_msg_def record_call_def commit_def split: sum.splits)

subsection \<open>Creating the target table\<close>

text \<open>
  Claim C6.  \<open>check_and_create_table\<close> sends a CREATE TABLE to the target if and only if
  the existence check reports the table absent.  The statement's text is
  \<open>CREATE TABLE "t" (c1 type1, c2 type2, ...)\<close> with exactly the (column name, data type)
  pairs the source catalog reported, unchanged; when the server accepts it the target gains
  a table with those columns and the creation is committed.  When the table exists, the
  only call on the target is the existence check: the target database is unchanged.
\<close>

theorem check_and_create_table_creates_iff_absent:
  assumes "check_and_create_table s t = (res, s')"
  shows "if db_table_exists (conn_db (target_conn s)) t
         then res = Inr () \<and>
              conn_db (target_conn s') = conn_db (target_conn s) \<and>
              conn_committed (target_conn s') = conn_committed (target_conn s) \<and>
              conn_calls (target_conn s') =
                conn_calls (target_conn s) @
                  [Execute (fst (check_table_exists t)) (snd (check_table_exists t))] \<and>
              source_conn s' = source_conn s
         else (\<exists>stmt.
                 conn_calls (target_conn s') =
                   conn_calls (target_conn s) @
                     [Execute (fst (check_table_exists t)) (snd (check_table_exists t)),
                      Execute stmt []] @ (if res = Inr () then [Commit] else []) \<and>
                 as_string stmt =
                   ''CREATE TABLE '' @ quote_ident t @ '' ('' @
                   str_join '', '' (map (\<lambda>col. fst col @ '' '' @ snd col)
                                         (db_columns (conn_db (source_conn s)) t)) @ '')'') \<and>
              conn_db (target_conn s') =
                (if res = Inr ()
                 then conn_db (target_conn s) @ [new_table t (db_columns (conn_db (source_conn s)) t)]
                 else conn_db (target_conn s)) \<and>
              conn_committed (target_conn s') =
                (if res = Inr () then conn_db (target_conn s') else conn_committed (target_conn s))"
proof (cases "db_table_exists (conn_db (target_conn s)) t")
  case True
  with assms show ?thesis
    by (auto simp: cact_exists log_msg_def record_call_def)
next
  case False
  have rendered: "as_string (create_stmt t cols) =
      ''CREATE TABLE '' @ quote_ident t @ '' ('' @
      str_join '', '' (map (\<lambda>col. fst col @ '' '' @ snd col) cols) @ '')''" for cols
    by (simp add: create_stmt_def)
  show ?thesis
  proof (cases "db_create_table (conn_db (target_conn s)) t (db_columns (conn_db (source_conn s)) t)")
    case (Inl e)
    with False assms rendered show ?thesis
      by (auto simp: cact_absent record_call_def)
  next
    case (Inr db')
    then have db': "db' = conn_db (target_conn s) @ [new_table t (db_columns (conn_db (source_conn s)) t)]"
      by (auto simp: db_create_table_def split: if_splits)
    with False assms rendered Inr show ?thesis
      by (auto simp: cact_absent record_call_def log_msg_def commit_def)
  qed
qed

theorem check_and_create_table_creates_iff_absent_witness:
  "\<not> db_table_exists (conn_db (target_conn (sync_of [users_source] []))) ''users'' \<and>
   fst (check_and_create_table (sync_of [users_source] []) ''users'') = Inr () \<and>
   conn_db (target_conn (snd (check_and_create_table (sync_of [users_source] []) ''users''))) =
     [new_table ''users'' [(''id'', ''integer''), (''name'', ''text'')]] \<and>
   (\<exists>stmt. conn_calls (target_conn (snd (check_and_create_table (sync_of [users_source] []) ''users''))) =
             [Execute (fst (check_table_exists ''users'')) (snd (check_table_exists ''users'')),
              Execute stmt [], Commit] \<and>
           as_string stmt = ''CREATE TABLE '' @ quote_ident ''users'' @ '' (id integer, name text)'')"
  using check_and_create_table_creates_iff_absent
          [of "sync_of [users_source] []" "''users''"
              "fst (check_and_create_table (sync_of [users_source] []) ''users'')"
              "snd (check_and_create_table (sync_of [users_source] []) ''users'')"]
  by (simp add: sync_of_def new_connection_def users_source_def db_table_exists_def
        db_columns_def named_def cact_absent db_create_table_def resolve_def)

lemma db_table_exists_iff: "db_table_exists db t \<longleftrightarrow> (\<exists>tb \<in> set db. tbl_name tb = t)"
  by (simp add: db_table_exists_def list_ex_iff named_def)

subsection \<open>The existence check looks at every schema\<close>

text \<open>
  Claim C9.  The existence check reports a table as existing as soon as a table of that
  name exists in any schema of the target, because the catalog query filters on the name
  only.  A table of the same name in a schema other than \<open>public\<close> therefore suppresses the
  creation: \<open>check_and_create_table\<close> returns normally, sends nothing but the check, and
  leaves the target database as it was.
\<close>
theorem same_name_in_any_schema_suppresses_creation:
  assumes "tb \<in> set (conn_db (target_conn s))" and "tbl_name tb = t"
  shows "db_table_exists (conn_db (target_conn s)) t \<and>
         fst (check_and_create_table s t) = Inr () \<and>
         conn_db (target_conn (snd (check_and_create_table s t))) = conn_db (target_conn s) \<and>
         conn_calls (target_conn (snd (check_and_create_table s t))) =
           conn_calls (target_conn s) @
             [Execute (SQL ''SELECT EXISTS (SELECT FROM information_schema.tables WHERE table_name = %s);'')
                      [TextV t]]"
proof -
  from assms have ex: "db_table_exists (conn_db (target_conn s)) t"
    by (auto simp: db_table_exists_iff)
  then show ?thesis
    by (simp add: cact_exists log_msg_def record_call_def check_table_exists_def)
qed

theorem same_name_in_any_schema_suppresses_creation_witness:
  "users_archived \<in> set (conn_db (target_conn (sync_of [users_source] [users_archived]))) \<and>
   tbl_name users_archived = ''users'' \<and> tbl_schema users_archived = ''archive'' \<and>
   resolve (conn_db (target_conn (sync_of [users_source] [users_archived]))) ''users'' = None \<and>
   db_table_exists (conn_db (target_conn (sync_of [users_source] [users_archived]))) ''users'' \<and>
   fst (check_and_create_table (sync_of [users_source] [users_archived]) ''users'') = Inr () \<and>
   conn_db (target_conn (snd (check_and_create_table (sync_of [users_source] [users_archived]) ''users'')))
     = [users_archived]"
  using same_name_in_any_schema_suppresses_creation
          [of users_archived "sync_of [users_source] [users_archived]" "''users''"]
  by (simp add: sync_of_def new_connection_def users_archived_def resolve_def in_public_def)

lemma check_and_create_table_target_db:
  assumes "check_and_create_table s t = (Inr (), s1)"
  shows "conn_db (target_conn s1) =
           (if db_table_exists (conn_db (target_conn s)) t then conn_db (target_conn s)
            else conn_db (target_conn s) @ [new_table t (db_columns (conn_db (source_conn s)) t)])"
    and "conn_committed (target_conn s1) =
           (if db_table_exists (conn_db (target_conn s)) t then conn_committed (target_conn s)
            else conn_db (target_conn s1))"
  using assms
  by (auto simp: cact_exists cact_absent log_msg_def record_call_def commit_def db_create_table_def
      split: sum.splits if_splits)

lemma get_missing_rows_no_pk:
  "db_primary_keys (conn_db (source_conn s)) t = Inr [] \<Longrightarrow>
   get_missing_rows s t =
     (Inr ([], []),
      log_msg ERROR (''No primary keys found for table '' @ t @ ''.'')
        (s\<lparr>source_conn := record_call (source_conn s)
              (Execute (fst (fetch_primary_keys t)) (snd (fetch_primary_keys t)))\<rparr>))"
  by (simp add: get_missing_rows_def get_primary_keys_def Let_def record_call_def)

subsection \<open>Tables without a primary key\<close>

lemma check_and_create_table_error:
  "check_and_create_table s t = (Inl e, s1) \<Longrightarrow> \<not> is_integrity_error e"
  by (cases "db_table_exists (conn_db (target_conn s)) t")
     (auto simp: cact_exists cact_absent db_create_table_def split: sum.splits if_splits)




lemma sync_tables_append:
  "sync_tables s (pre @ rest) =
     (case sync_tables s pre of (Inl e, s1) \<Rightarrow> (Inl e, s1) | (Inr u, s1) \<Rightarrow> sync_tables s1 rest)"
  by (induction pre arbitrary: s) (auto split: prod.splits sum.splits)

subsection \<open>The two exception handlers of sync_table\<close>

text \<open>
  Claim C4.  When the \<open>try\<close> block of \<open>sync_table\<close> raises an integrity error (in this
  model only the bulk insert can), the target transaction is rolled back, a warning is
  logged and \<open>sync_table\<close> returns normally: \<open>sync_all_tables\<close> goes on with the remaining
  tables.  When it raises any other error, the target transaction is rolled back, the
  error is logged and raised again: \<open>sync_all_tables\<close> logs it and raises it without
  touching the remaining tables.  In both cases the rollback leaves what the target had
  committed before.
\<close>
theorem sync_table_failure_handling:
  assumes body: "sync_table_try s t = (Inl e, s1)"
    and tables: "db_public_tables (conn_db (source_conn s0)) = pre @ t # ts"
    and before: "sync_tables
                   (s0\<lparr>source_conn := record_call (source_conn s0)
                         (Execute (SQL ''SELECT table_name FROM information_schema.tables WHERE table_schema = 'public';'') [])\<rparr>)
                   pre = (Inr (), s)"
  shows "sync_table s t =
           (if is_integrity_error e then Inr () else Inl e,
            log_msg (if is_integrity_error e then WARNING else ERROR)
              (if is_integrity_error e
               then ''Integrity error syncing '' @ t @ '': Duplicate rows detected.''
               else ''Unexpected error syncing '' @ t @ '': '' @ str_error e)
              (s1\<lparr>target_conn := rollback (target_conn s1)\<rparr>)) \<and>
         conn_db (target_conn (snd (sync_table s t))) = conn_committed (target_conn s1) \<and>
         conn_committed (target_conn (snd (sync_table s t))) = conn_committed (target_conn s1) \<and>
         last (conn_calls (target_conn (snd (sync_table s t)))) = Rollback \<and>
         sync_all_tables s0 =
           (if is_integrity_error e then
              (case sync_tables (snd (sync_table s t)) ts of
                 (Inl e', s2) \<Rightarrow> (Inl e', log_msg ERROR (''Failed to sync all tables: '' @ str_error e') s2)
               | (Inr u, s2) \<Rightarrow> (Inr (), log_msg INFO ''All tables synced successfully.'' s2))
            else (Inl e, log_msg ERROR (''Failed to sync all tables: '' @ str_error e)
                           (snd (sync_table s t))))"
proof -
  have st: "sync_table s t =
           (if is_integrity_error e then Inr () else Inl e,
            log_msg (if is_integrity_error e then WARNING else ERROR)
              (if is_integrity_error e
               then ''Integrity error syncing '' @ t @ '': Duplicate rows detected.''
               else ''Unexpected error syncing '' @ t @ '': '' @ str_error e)
              (s1\<lparr>target_conn := rollback (target_conn s1)\<rparr>))"
    by (simp add: sync_table_def body)
  have all: "sync_all_tables s0 =
      (case sync_tables s (t # ts) of
         (Inl e', s2) \<Rightarrow> (Inl e', log_msg ERROR (''Failed to sync all tables: '' @ str_error e') s2)
       | (Inr u, s2) \<Rightarrow> (Inr (), log_msg INFO ''All tables synced successfully.'' s2))"
    by (simp add: sync_all_tables_def Let_def record_call_def tables sync_tables_append
          before [unfolded record_call_def, simplified])
  show ?thesis
    unfolding all
    by (simp add: st log_msg_def rollback_def record_call_def)
qed

lemma integrity_example_body:
  "fst (sync_table_try (listed (sync_of [users_source] [users_strict])) ''users'') =
     Inl (IntegrityError ''null value violates not-null constraint'')"
  by code_simp

lemma integrity_example_committed:
  "conn_committed (target_conn (snd (sync_table_try (listed (sync_of [users_source] [users_strict])) ''users'')))
     = [users_strict]"
  by code_simp

lemma unexpected_example_body:
  "fst (sync_table_try (listed (sync_of [users_source] [users_archived])) ''users'') =
     Inl (ProgrammingError ''relation does not exist'')"
  by code_simp

theorem sync_table_failure_handling_witness:
  "fst (sync_table_try (listed (sync_of [users_source] [users_strict])) ''users'') =
     Inl (IntegrityError ''null value violates not-null constraint'') \<and>
   fst (sync_table (listed (sync_of [users_source] [users_strict])) ''users'') = Inr () \<and>
   conn_db (target_conn (snd (sync_table (listed (sync_of [users_source] [users_strict])) ''users'')))
     = [users_strict] \<and>
   fst (sync_all_tables (sync_of [users_source] [users_strict])) = Inr () \<and>
   fst (sync_table_try (listed (sync_of [users_source] [users_archived])) ''users'') =
     Inl (ProgrammingError ''relation does not exist'') \<and>
   fst (sync_table (listed (sync_of [users_source] [users_archived])) ''users'') =
     Inl (ProgrammingError ''relation does not exist'') \<and>
   fst (sync_all_tables (sync_of [users_source] [users_archived])) =
     Inl (ProgrammingError ''relation does not exist'')"
proof -
  have e1: "sync_table_try (listed (sync_of [users_source] [users_strict])) ''users'' =
      (Inl (IntegrityError ''null value violates not-null constraint''),
       snd (sync_table_try (listed (sync_of [users_source] [users_strict])) ''users''))"
    using integrity_example_body by (metis prod.collapse)
  have e2: "sync_table_try (listed (sync_of [users_source] [users_archived])) ''users'' =
      (Inl (ProgrammingError ''relation does not exist''),
       snd (sync_table_try (listed (sync_of [users_source] [users_archived])) ''users''))"
    using unexpected_example_body by (metis prod.collapse)
  have t: "db_public_tables (conn_db (source_conn (sync_of [users_source] tgt))) = [] @ ''users'' # []" for tgt
    by (simp add: sync_of_def new_connection_def db_public_tables_def users_source_def)
  have b: "sync_tables
                   ((sync_of [users_source] tgt)\<lparr>source_conn := record_call (source_conn (sync_of [users_source] tgt))
                         (Execute (SQL ''SELECT table_name FROM information_schema.tables WHERE table_schema = 'public';'') [])\<rparr>)
                   [] = (Inr (), listed (sync_of [users_source] tgt))" for tgt
    by (simp add: listed_def)
  note w1 = sync_table_failure_handling [OF e1 t b]
  note w2 = sync_table_failure_handling [OF e2 t b]
  show ?thesis
    using w1 w2 integrity_example_body unexpected_example_body integrity_example_committed
    by (simp add: log_msg_def rollback_def record_call_def)
qed

lemma execute_values_committed:
  "execute_values c stmt rows = (r, c') \<Longrightarrow>
   conn_committed c' = conn_committed c \<and> conn_closed c' = conn_closed c"
  by (auto simp: execute_values_def record_call_def split: sum.splits option.splits prod.splits)

lemma sync_table_try_unfold:
  assumes "check_and_create_table s t = (Inr (), s1)"
    and "get_missing_rows s1 t = (Inr (missing, cols), s2)"
  shows "sync_table_try s t =
     (if missing = [] then (Inr (), log_msg INFO (''No missing rows to sync for '' @ t) s2)
      else (case execute_values (target_conn s2) (insert_stmt t cols) missing of
              (Inl e, tc) \<Rightarrow> (Inl e, s2\<lparr>target_conn := tc\<rparr>)
            | (Inr u, tc) \<Rightarrow>
                (Inr (),
                 log_msg INFO (''Synced table '' @ t @ '' successfully with '' @
                               str_nat (length missing) @ '' rows.'')
                   (s2\<lparr>target_conn := commit tc\<rparr>))))"
  by (simp add: sync_table_try_def assms insert_missing_rows_def insert_format insert_stmt_def)

lemma sync_table_try_committed_on_error:
  assumes "sync_table_try s t = (Inl e, s2)"
  shows "conn_committed (target_conn s2) =
         conn_committed (target_conn (snd (check_and_create_table s t)))"
proof (cases "check_and_create_table s t")
  case (Pair r s1)
  show ?thesis
  proof (cases r)
    case (Inl e')
    with Pair assms show ?thesis by (simp add: sync_table_try_def)
  next
    case (Inr u)
    with Pair have cc: "check_and_create_table s t = (Inr (), s1)" by simp
    obtain r2 s2' where gm: "get_missing_rows s1 t = (r2, s2')" by (cases "get_missing_rows s1 t")
    note fr = get_missing_rows_frame(2) [OF gm]
    show ?thesis
    proof (cases r2)
      case (Inl e')
      with cc gm assms fr show ?thesis by (simp add: sync_table_try_def)
    next
      case mc: (Inr mc)
      obtain missing cols where mc_eq: "mc = (missing, cols)" by (cases mc)
      from gm mc mc_eq have gm': "get_missing_rows s1 t = (Inr (missing, cols), s2')" by simp
      note unf = sync_table_try_unfold [OF cc gm']
      show ?thesis
      proof (cases "missing = []")
        case True
        with unf assms show ?thesis by simp
      next
        case False
        obtain r3 tc where ev: "execute_values (target_conn s2') (insert_stmt t cols) missing = (r3, tc)"
          by (cases "execute_values (target_conn s2') (insert_stmt t cols) missing")
        from execute_values_committed [OF ev]
        have tcc: "conn_committed tc = conn_committed (target_conn s2')" by simp
        show ?thesis
        proof (cases r3)
          case (Inl e3)
          with unf False ev assms have "s2 = s2'\<lparr>target_conn := tc\<rparr>" by simp
          with tcc fr cc show ?thesis by simp
        next
          case (Inr u3)
          with unf False ev assms show ?thesis by simp
        qed
      qed
    qed
  qed
qed

lemma resolve_created:
  "\<not> db_table_exists db t \<Longrightarrow> resolve (db @ [new_table t cols]) t = Some (new_table t cols)"
  by (induction db) (simp_all add: resolve_def db_table_exists_def in_public_def named_def new_table_def)

subsection \<open>A created table outlives a failed sync\<close>

text \<open>
  Claim C10.  When \<open>check_and_create_table\<close> creates the table, the creation is committed
  at once, before the diff and the insert.  If the rest of the \<open>try\<close> block then fails,
  the rollback of \<open>sync_table\<close> returns to that committed state: the target keeps the new,
  empty table although the rows were not synced.
\<close>
theorem created_table_survives_failed_sync:
  assumes absent: "\<not> db_table_exists (conn_db (target_conn s)) t"
    and created: "check_and_create_table s t = (Inr (), s1)"
    and failed: "sync_table_try s t = (Inl e, s2)"
  shows "conn_committed (target_conn s1) =
           conn_db (target_conn s) @ [new_table t (db_columns (conn_db (source_conn s)) t)] \<and>
         conn_db (target_conn (snd (sync_table s t))) =
           conn_db (target_conn s) @ [new_table t (db_columns (conn_db (source_conn s)) t)] \<and>
         conn_committed (target_conn (snd (sync_table s t))) =
           conn_db (target_conn s) @ [new_table t (db_columns (conn_db (source_conn s)) t)] \<and>
         resolve (conn_db (target_conn (snd (sync_table s t)))) t =
           Some (new_table t (db_columns (conn_db (source_conn s)) t))"
proof -
  from check_and_create_table_target_db [OF created] absent
  have c1: "conn_committed (target_conn s1) =
           conn_db (target_conn s) @ [new_table t (db_columns (conn_db (source_conn s)) t)]"
    by simp
  from sync_table_try_committed_on_error [OF failed] created
  have c2: "conn_committed (target_conn s2) = conn_committed (target_conn s1)" by simp
  have "conn_db (target_conn (snd (sync_table s t))) = conn_committed (target_conn s2)"
    and "conn_committed (target_conn (snd (sync_table s t))) = conn_committed (target_conn s2)"
    by (simp_all add: sync_table_def failed log_msg_def rollback_def record_call_def)
  with c1 c2 resolve_created [OF absent] show ?thesis by simp
qed

lemma survives_example_body:
  "fst (sync_table_try (sync_of [users_archived] []) ''users'') =
     Inl (ProgrammingError ''relation does not exist'')"
  by code_simp

lemma survives_example_created:
  "fst (check_and_create_table (sync_of [users_archived] []) ''users'') = Inr ()"
  by code_simp

theorem created_table_survives_failed_sync_witness:
  "\<not> db_table_exists (conn_db (target_conn (sync_of [users_archived] []))) ''users'' \<and>
   fst (check_and_create_table (sync_of [users_archived] []) ''users'') = Inr () \<and>
   fst (sync_table_try (sync_of [users_archived] []) ''users'') =
     Inl (ProgrammingError ''relation does not exist'') \<and>
   fst (sync_table (sync_of [users_archived] []) ''users'') =
     Inl (ProgrammingError ''relation does not exist'') \<and>
   conn_db (target_conn (snd (sync_table (sync_of [users_archived] []) ''users''))) =
     [new_table ''users'' [(''id'', ''integer'')]]"
proof -
  have absent: "\<not> db_table_exists (conn_db (target_conn (sync_of [users_archived] []))) ''users''"
    by (simp add: sync_of_def new_connection_def db_table_exists_def)
  have created: "check_and_create_table (sync_of [users_archived] []) ''users'' =
      (Inr (), snd (check_and_create_table (sync_of [users_archived] []) ''users''))"
    using survives_example_created by (metis prod.collapse)
  have failed: "sync_table_try (sync_of [users_archived] []) ''users'' =
      (Inl (ProgrammingError ''relation does not exist''),
       snd (sync_table_try (sync_of [users_archived] []) ''users''))"
    using survives_example_body by (metis prod.collapse)
  have cols: "db_columns (conn_db (source_conn (sync_of [users_archived] []))) ''users'' = [(''id'', ''integer'')]"
    by (simp add: sync_of_def new_connection_def users_archived_def db_columns_def named_def)
  have raised: "fst (sync_table (sync_of [users_archived] []) ''users'') =
     Inl (ProgrammingError ''relation does not exist'')"
    using survives_example_body
    by (cases "sync_table_try (sync_of [users_archived] []) ''users''") (simp add: sync_table_def)
  have tgt: "conn_db (target_conn (sync_of [users_archived] [])) = []"
    by (simp add: sync_of_def new_connection_def)
  from created_table_survives_failed_sync [OF absent created failed]
  have "conn_db (target_conn (snd (sync_table (sync_of [users_archived] []) ''users''))) =
     [new_table ''users'' [(''id'', ''integer'')]]"
    unfolding cols tgt by simp
  with absent survives_example_created survives_example_body raised
  show ?thesis by blast
qed

subsection \<open>The key dictionary\<close>

lemma dict_set_fresh: "k \<notin> fst ` set d \<Longrightarrow> dict_set d k v = d @ [(k, v)]"
  by (induction d) auto

lemma dict_set_length_known: "k \<in> fst ` set d \<Longrightarrow> length (dict_set d k v) = length d"
  by (induction d) auto

lemma dict_set_keys: "fst ` set (dict_set d k v) = insert k (fst ` set d)"
  by (induction d) auto

lemma pk_values_length:
  "pk_values pks cols row d0 = Inr d \<Longrightarrow>
   length d \<le> length d0 + length pks \<and>
   (length d = length d0 + length pks \<longrightarrow> distinct pks \<and> set pks \<inter> fst ` set d0 = {})"
proof (induction pks arbitrary: d0)
  case Nil
  then show ?case by simp
next
  case (Cons pk pks)
  from Cons.prems obtain i where i: "index_of pk cols = Some i" "i < length row"
    and rest: "pk_values pks cols row (dict_set d0 pk (row ! i)) = Inr d"
    by (auto split: option.splits if_splits)
  note ih = Cons.IH [OF rest]
  show ?case
  proof (cases "pk \<in> fst ` set d0")
    case True
    with ih show ?thesis by (simp add: dict_set_length_known)
  next
    case False
    with ih show ?thesis by (auto simp: dict_set_fresh dict_set_keys)
  qed
qed

lemma pk_values_distinct:
  "pk_values pks cols row d0 = Inr d \<Longrightarrow> distinct pks \<Longrightarrow> set pks \<inter> fst ` set d0 = {} \<Longrightarrow>
   \<exists>vs. key_of cols pks row = Some vs \<and> d = d0 @ zip pks vs \<and> length vs = length pks"
proof (induction pks arbitrary: d0)
  case Nil
  then show ?case by simp
next
  case (Cons pk pks)
  from Cons.prems(1) obtain i where i: "index_of pk cols = Some i" "i < length row"
    and rest: "pk_values pks cols row (dict_set d0 pk (row ! i)) = Inr d"
    by (auto split: option.splits if_splits)
  from Cons.prems have fresh: "pk \<notin> fst ` set d0" by auto
  then have ds: "dict_set d0 pk (row ! i) = d0 @ [(pk, row ! i)]" by (rule dict_set_fresh)
  from Cons.prems have "distinct pks" and "set pks \<inter> fst ` set (d0 @ [(pk, row ! i)]) = {}"
    by auto
  from Cons.IH [OF rest [unfolded ds] this]
  obtain vs where vs: "key_of cols pks row = Some vs" "d = (d0 @ [(pk, row ! i)]) @ zip pks vs"
    "length vs = length pks" by blast
  from i have c: "cell cols row pk = Some (row ! i)" by (simp add: cell_def)
  show ?case
    by (rule exI [of _ "(row ! i) # vs"]) (simp add: c vs)
qed

lemma key_of_pk_values:
  "key_of cols pks row = Some vs \<Longrightarrow> distinct pks \<Longrightarrow> set pks \<inter> fst ` set d0 = {} \<Longrightarrow>
   pk_values pks cols row d0 = Inr (d0 @ zip pks vs)"
proof (induction pks arbitrary: d0 vs)
  case Nil
  then show ?case by simp
next
  case (Cons pk pks)
  from Cons.prems(1) obtain v vs' where v: "cell cols row pk = Some v"
    and vs': "key_of cols pks row = Some vs'" and vs: "vs = v # vs'"
    by (auto split: option.splits)
  from v obtain i where i: "index_of pk cols = Some i" "i < length row" "v = row ! i"
    by (auto simp: cell_def split: option.splits if_splits)
  from Cons.prems have fresh: "pk \<notin> fst ` set d0" by auto
  then have ds: "dict_set d0 pk (row ! i) = d0 @ [(pk, row ! i)]" by (rule dict_set_fresh)
  from Cons.prems have "distinct pks" and "set pks \<inter> fst ` set (d0 @ [(pk, row ! i)]) = {}"
    by auto
  from Cons.IH [OF vs' this] i ds vs show ?case by simp
qed

lemma key_of_length: "key_of cols pks row = Some vs \<Longrightarrow> length vs = length pks"
  by (induction pks arbitrary: vs) (auto split: option.splits)

text \<open>A probe that the driver accepts has as many parameters as key columns: the keys
  are distinct and the parameters are the key values in order.\<close>

lemma probed_params:
  assumes "pk_values pks cols row [] = Inr d" and "db_probe db t pks (map snd d) = Inr found"
  shows "distinct pks \<and> key_of cols pks row = Some (map snd d)"
proof -
  from assms(2) have "length d = length pks"
    by (auto simp: db_probe_def split: if_splits)
  with pk_values_length [OF assms(1)] have dist: "distinct pks" by simp
  from pk_values_distinct [OF assms(1) dist] obtain vs
    where "key_of cols pks row = Some vs" "d = zip pks vs" "length vs = length pks" by auto
  then show ?thesis using dist by simp
qed

subsection \<open>The loop of get_missing_rows\<close>

lemma probe_rows_result:
  "probe_rows tc t pks cols rows m = (Inr missing, tc') \<Longrightarrow>
   missing = m @ filter (absent_in (conn_db tc) t pks cols) rows \<and>
   list_all (\<lambda>row. \<exists>d found. pk_values pks cols row [] = Inr d \<and>
                     db_probe (conn_db tc) t pks (map snd d) = Inr found) rows \<and>
   (\<exists>cs. conn_calls tc' = conn_calls tc @ cs \<and>
         map (\<lambda>row. map_option (Execute (probe_stmt t pks)) (key_of cols pks row)) rows = map Some cs)"
proof (induction rows arbitrary: tc m)
  case Nil
  then show ?case by simp
next
  case (Cons row rows)
  from Cons.prems obtain d where d: "pk_values pks cols row [] = Inr d"
    by (cases "pk_values pks cols row []") auto
  from Cons.prems d obtain found where found: "db_probe (conn_db tc) t pks (map snd d) = Inr found"
    by (cases "db_probe (conn_db tc) t pks (map snd d)") (auto simp: probe_format)
  let ?tc1 = "record_call tc (Execute (probe_stmt t pks) (map snd d))"
  from Cons.prems d found
  have rest: "probe_rows ?tc1 t pks cols rows (if found then m else m @ [row]) = (Inr missing, tc')"
    by (simp add: probe_format probe_stmt_def)
  have db1: "conn_db ?tc1 = conn_db tc" by (simp add: record_call_def)
  note ih = Cons.IH [OF rest, unfolded db1]
  from probed_params [OF d found] have key: "key_of cols pks row = Some (map snd d)" by simp
  have abs: "absent_in (conn_db tc) t pks cols row = (\<not> found)"
    by (simp add: absent_in_def d found)
  from ih obtain cs where cs: "conn_calls tc' = conn_calls ?tc1 @ cs"
    "map (\<lambda>row. map_option (Execute (probe_stmt t pks)) (key_of cols pks row)) rows = map Some cs"
    by blast
  have calls: "\<exists>cs'. conn_calls tc' = conn_calls tc @ cs' \<and>
      map (\<lambda>row. map_option (Execute (probe_stmt t pks)) (key_of cols pks row)) (row # rows) = map Some cs'"
    by (rule exI [of _ "Execute (probe_stmt t pks) (map snd d) # cs"])
       (simp add: cs key record_call_def)
  from ih abs d found calls show ?case by auto
qed

lemma probe_rows_total:
  "list_all (\<lambda>row. \<exists>d found. pk_values pks cols row [] = Inr d \<and>
                     db_probe (conn_db tc) t pks (map snd d) = Inr found) rows \<Longrightarrow>
   fst (probe_rows tc t pks cols rows m) = Inr (m @ filter (absent_in (conn_db tc) t pks cols) rows)"
proof (induction rows arbitrary: tc m)
  case Nil
  then show ?case by simp
next
  case (Cons row rows)
  from Cons.prems obtain d found where d: "pk_values pks cols row [] = Inr d"
    and found: "db_probe (conn_db tc) t pks (map snd d) = Inr found" by auto
  let ?tc1 = "record_call tc (Execute (probe_stmt t pks) (map snd d))"
  have db1: "conn_db ?tc1 = conn_db tc" by (simp add: record_call_def)
  from Cons.prems have "list_all (\<lambda>row. \<exists>d found. pk_values pks cols row [] = Inr d \<and>
                     db_probe (conn_db ?tc1) t pks (map snd d) = Inr found) rows"
    by (simp add: db1)
  from Cons.IH [OF this, of "if found then m else m @ [row]"]
  have "fst (probe_rows ?tc1 t pks cols rows (if found then m else m @ [row])) =
      Inr ((if found then m else m @ [row]) @ filter (absent_in (conn_db tc) t pks cols) rows)"
    by (simp add: db1)
  moreover have "absent_in (conn_db tc) t pks cols row = (\<not> found)"
    by (simp add: absent_in_def d found)
  ultimately show ?case
    by (simp add: d found probe_format probe_stmt_def)
qed

lemma get_missing_rows_keyed:
  assumes pk: "db_primary_keys (conn_db (source_conn s)) t = Inr pks" and ne: "pks \<noteq> []"
  shows "get_missing_rows s t =
     (case select_all_rows t of
        Inl e \<Rightarrow> (Inl e, s\<lparr>source_conn := record_call (source_conn s)
                  (Execute (fst (fetch_primary_keys t)) (snd (fetch_primary_keys t)))\<rparr>)
      | Inr (q, params) \<Rightarrow>
          (case db_select_all (conn_db (source_conn s)) t of
             Inl e \<Rightarrow> (Inl e, s\<lparr>source_conn := record_call (record_call (source_conn s)
                  (Execute (fst (fetch_primary_keys t)) (snd (fetch_primary_keys t)))) (Execute q params)\<rparr>)
           | Inr (rows, cols) \<Rightarrow>
               (case probe_rows (target_conn s) t pks cols rows [] of
                  (Inl e, tc) \<Rightarrow>
                     (Inl e, s\<lparr>source_conn := record_call (record_call (source_conn s)
                        (Execute (fst (fetch_primary_keys t)) (snd (fetch_primary_keys t)))) (Execute q params),
                        target_conn := tc\<rparr>)
                | (Inr missing, tc) \<Rightarrow>
                     (Inr (missing, cols), s\<lparr>source_conn := record_call (record_call (source_conn s)
                        (Execute (fst (fetch_primary_keys t)) (snd (fetch_primary_keys t)))) (Execute q params),
                        target_conn := tc\<rparr>))))"
  using pk ne
  by (simp add: get_missing_rows_def get_primary_keys_def Let_def record_call_def
      split: sum.splits prod.splits)

lemma as_string_sql_join:
  "as_string (sql_join j xs) = str_join (as_string j) (map as_string xs)"
proof (induction xs rule: induct_list012)
  case 1
  then show ?case by simp
next
  case (2 x)
  then show ?case by simp
next
  case (3 x y zs)
  then show ?case by simp
qed

lemma as_string_where_clause:
  "pks \<noteq> [] \<Longrightarrow>
   as_string (construct_where_clause pks) =
     str_join '' AND '' (map (\<lambda>k. quote_ident k @ ''= %s'') pks)"
  by (simp add: construct_where_clause_def as_string_sql_join comp_def)

subsection \<open>The diff probes the target once per source row, by primary key\<close>

text \<open>
  Claim C7.  When \<open>get_missing_rows\<close> returns for a table with primary key \<open>pks\<close>, it has
  sent to the target exactly one probe per scanned source row, in scan order: the statement
  \<open>SELECT 1 FROM "t" WHERE "k1"= %s AND "k2"= %s ...\<close>, one equality per key column, whose
  parameters are the values the row holds at the positions of the key columns in the
  scanned column list.  The rows it returns are the scanned rows whose probe found
  nothing, in scan order, together with the scanned column list.  For an empty key list
  the clause would be \<open>TRUE\<close>.
\<close>

theorem get_missing_rows_probes_each_row_by_key:
  assumes diff: "get_missing_rows s t = (Inr (missing, cols), s')"
    and pk: "db_primary_keys (conn_db (source_conn s)) t = Inr pks" and ne: "pks \<noteq> []"
    and scan: "db_select_all (conn_db (source_conn s)) t = Inr (rows, scols)"
  shows "cols = scols \<and>
         (\<exists>cs. conn_calls (target_conn s') = conn_calls (target_conn s) @ cs \<and>
               map (\<lambda>row. map_option (Execute (probe_stmt t pks)) (key_of cols pks row)) rows
                 = map Some cs) \<and>
         as_string (probe_stmt t pks) =
           ''SELECT 1 FROM '' @ quote_ident t @ '' WHERE '' @
           str_join '' AND '' (map (\<lambda>k. quote_ident k @ ''= %s'') pks) \<and>
         construct_where_clause [] = SQL ''TRUE'' \<and>
         missing =
           filter (\<lambda>row. case key_of cols pks row of
                           None \<Rightarrow> False
                         | Some vs \<Rightarrow> db_probe (conn_db (target_conn s)) t pks vs = Inr False) rows"
proof -
  from diff obtain q params where sel: "select_all_rows t = Inr (q, params)"
    unfolding get_missing_rows_keyed [OF pk ne]
    by (cases "select_all_rows t") auto
  from diff sel scan obtain tc where pr: "probe_rows (target_conn s) t pks scols rows [] = (Inr missing, tc)"
    and cols: "cols = scols" and tc: "target_conn s' = tc"
    unfolding get_missing_rows_keyed [OF pk ne]
    by (auto split: prod.splits sum.splits)
  note res = probe_rows_result [OF pr]
  from res have all: "list_all (\<lambda>row. \<exists>d found. pk_values pks scols row [] = Inr d \<and>
                     db_probe (conn_db (target_conn s)) t pks (map snd d) = Inr found) rows"
    by simp
  have same: "absent_in (conn_db (target_conn s)) t pks scols row =
      (case key_of scols pks row of None \<Rightarrow> False
       | Some vs \<Rightarrow> db_probe (conn_db (target_conn s)) t pks vs = Inr False)"
    if "row \<in> set rows" for row
  proof -
    from all that obtain d found where d: "pk_values pks scols row [] = Inr d"
      and f: "db_probe (conn_db (target_conn s)) t pks (map snd d) = Inr found"
      by (auto simp: list_all_iff)
    from probed_params [OF d f] d show ?thesis by (simp add: absent_in_def)
  qed
  from res have "missing = filter (absent_in (conn_db (target_conn s)) t pks scols) rows" by simp
  also have "\<dots> = filter (\<lambda>row. case key_of scols pks row of None \<Rightarrow> False
       | Some vs \<Rightarrow> db_probe (conn_db (target_conn s)) t pks vs = Inr False) rows"
    by (rule filter_cong) (simp_all add: same)
  finally have m: "missing = filter (\<lambda>row. case key_of scols pks row of None \<Rightarrow> False
       | Some vs \<Rightarrow> db_probe (conn_db (target_conn s)) t pks vs = Inr False) rows" .
  have rendered: "as_string (probe_stmt t pks) =
           ''SELECT 1 FROM '' @ quote_ident t @ '' WHERE '' @
           str_join '' AND '' (map (\<lambda>k. quote_ident k @ ''= %s'') pks)"
    by (simp add: probe_stmt_def as_string_where_clause [OF ne])
  have tr: "construct_where_clause [] = SQL ''TRUE''" by (simp add: construct_where_clause_def)
  from res cols tc m rendered tr show ?thesis by simp
qed

lemma diff_example:
  "fst (get_missing_rows (sync_of [users_source] [users_target]) ''users'') =
     Inr ([IntV 2, Null] # [], [''id'', ''name''])"
  by code_simp

theorem get_missing_rows_probes_each_row_by_key_witness:
  "fst (get_missing_rows (sync_of [users_source] [users_target]) ''users'') =
     Inr ([IntV 2, Null] # [], [''id'', ''name'']) \<and>
   db_primary_keys (conn_db (source_conn (sync_of [users_source] [users_target]))) ''users'' = Inr [''id''] \<and>
   db_select_all (conn_db (source_conn (sync_of [users_source] [users_target]))) ''users'' =
     Inr ([IntV 1, TextV ''a''] # [IntV 2, Null] # [], [''id'', ''name'']) \<and>
   conn_calls (target_conn (snd (get_missing_rows (sync_of [users_source] [users_target]) ''users''))) =
     [Execute (probe_stmt ''users'' [''id'']) [IntV 1], Execute (probe_stmt ''users'' [''id'']) [IntV 2]] \<and>
   as_string (probe_stmt ''users'' [''id'']) =
     ''SELECT 1 FROM '' @ quote_ident ''users'' @ '' WHERE '' @ quote_ident ''id'' @ ''= %s''"
proof -
  have diff: "get_missing_rows (sync_of [users_source] [users_target]) ''users'' =
      (Inr ([IntV 2, Null] # [], [''id'', ''name'']),
       snd (get_missing_rows (sync_of [users_source] [users_target]) ''users''))"
    using diff_example by (metis prod.collapse)
  have pk: "db_primary_keys (conn_db (source_conn (sync_of [users_source] [users_target]))) ''users'' = Inr [''id'']"
    by (simp add: sync_of_def new_connection_def users_source_def db_primary_keys_def resolve_def
          in_public_def)
  have ne: "[''id''] \<noteq> []" by simp
  have scan: "db_select_all (conn_db (source_conn (sync_of [users_source] [users_target]))) ''users'' =
     Inr ([IntV 1, TextV ''a''] # [IntV 2, Null] # [], [''id'', ''name''])"
    by (simp add: sync_of_def new_connection_def users_source_def db_select_all_def resolve_def
          in_public_def)
  have calls0: "conn_calls (target_conn (sync_of [users_source] [users_target])) = []"
    by (simp add: sync_of_def new_connection_def)
  from get_missing_rows_probes_each_row_by_key [OF diff pk ne scan]
  obtain cs where cs: "conn_calls (target_conn (snd (get_missing_rows (sync_of [users_source] [users_target]) ''users''))) = cs"
    and m: "map (\<lambda>row. map_option (Execute (probe_stmt ''users'' [''id'']))
                  (key_of [''id'', ''name''] [''id''] row))
              ([IntV 1, TextV ''a''] # [IntV 2, Null] # []) = map Some cs"
    and rendered: "as_string (probe_stmt ''users'' [''id'']) =
           ''SELECT 1 FROM '' @ quote_ident ''users'' @ '' WHERE '' @
           str_join '' AND '' (map (\<lambda>k. quote_ident k @ ''= %s'') [''id''])"
    unfolding calls0 by auto
  from m have "cs = [Execute (probe_stmt ''users'' [''id'']) [IntV 1],
                     Execute (probe_stmt ''users'' [''id'']) [IntV 2]]"
    by (auto simp: cell_def)
  with cs rendered diff_example pk scan show ?thesis by simp
qed

subsection \<open>Rows, keys and the bulk insert\<close>

lemma index_of_member:
  "k \<in> set xs \<Longrightarrow> \<exists>i. index_of k xs = Some i \<and> i < length xs \<and> xs ! i = k"
  by (induction xs) auto

lemma cell_new_row:
  assumes "k \<in> set tcols"
  shows "cell tcols (new_row tcols cols row) k =
         Some (case cell cols row k of None \<Rightarrow> Null | Some v \<Rightarrow> v)"
proof -
  from index_of_member [OF assms] obtain i where "index_of k tcols = Some i" "i < length tcols"
    "tcols ! i = k" by blast
  then show ?thesis by (simp add: cell_def new_row_def)
qed

lemma key_of_new_row:
  "key_of cols pks row = Some kv \<Longrightarrow> list_all (\<lambda>k. k \<in> set tcols) pks \<Longrightarrow>
   key_of tcols pks (new_row tcols cols row) = Some kv"
  by (induction pks arbitrary: kv) (auto simp: cell_new_row split: option.splits)

lemma same_on_key:
  "same_on tcols u old new \<Longrightarrow> list_all (\<lambda>k. k \<in> set u) pks \<Longrightarrow>
   key_of tcols pks new = Some kv \<Longrightarrow> key_of tcols pks old = Some kv"
proof (induction pks arbitrary: kv)
  case Nil
  then show ?case by simp
next
  case (Cons k ks)
  from Cons.prems(3) obtain v kv' where v: "cell tcols new k = Some v"
    and kv': "key_of tcols ks new = Some kv'" and kv: "kv = v # kv'"
    by (auto split: option.splits)
  from Cons.prems(2) have ku: "k \<in> set u" and rest: "list_all (\<lambda>k. k \<in> set u) ks" by simp_all
  from Cons.prems(1) ku v have "cell tcols old k = Some v"
    by (auto simp: same_on_def list_all_iff sql_eq_def split: option.splits)
  with Cons.IH [OF Cons.prems(1) rest kv'] kv show ?case by simp
qed

lemma row_matches_key:
  "row_matches tcols pks vs r \<Longrightarrow> length vs = length pks \<Longrightarrow> key_of tcols pks r = Some vs"
proof (induction pks arbitrary: vs)
  case Nil
  then show ?case by simp
next
  case (Cons k ks)
  from Cons.prems(2) obtain v vs' where vs: "vs = v # vs'" by (cases vs) auto
  from Cons.prems vs have "row_matches tcols ks vs' r" and "length vs' = length ks"
    and "cell tcols r k = Some v"
    by (auto simp: row_matches_def sql_eq_def split: option.splits)
  with Cons.IH [of vs'] vs show ?case by simp
qed

lemma key_row_matches:
  "key_of tcols pks r = Some vs \<Longrightarrow> Null \<notin> set vs \<Longrightarrow> row_matches tcols pks vs r"
proof (induction pks arbitrary: vs)
  case Nil
  then show ?case by (simp add: row_matches_def)
next
  case (Cons k ks)
  from Cons.prems(1) obtain v vs' where v: "cell tcols r k = Some v"
    and vs': "key_of tcols ks r = Some vs'" and vs: "vs = v # vs'"
    by (auto split: option.splits)
  from Cons.prems(2) vs have "Null \<notin> set vs'" and "v \<noteq> Null" by auto
  with Cons.IH [OF vs'] v vs show ?case by (simp add: row_matches_def sql_eq_def)
qed

lemma probe_found_present:
  "db_probe db t pks vs = Inr True \<Longrightarrow> present_in db t pks vs"
  by (auto simp: db_probe_def present_in_def list_ex_iff split: if_splits option.splits
      dest: row_matches_key)

lemma present_probe_found:
  "db_probe db t pks vs = Inr found \<Longrightarrow> Null \<notin> set vs \<Longrightarrow> present_in db t pks vs \<Longrightarrow> found"
  by (auto simp: db_probe_def present_in_def list_ex_iff split: if_splits option.splits
      dest: key_row_matches)

lemma insert_rows_result:
  "insert_rows tb cols dn rs = Inr tb' \<Longrightarrow>
   tbl_cols tb' = tbl_cols tb \<and> tbl_unique tb' = tbl_unique tb \<and>
   tbl_name tb' = tbl_name tb \<and> tbl_schema tb' = tbl_schema tb \<and>
   (\<exists>extra. tbl_rows tb' = tbl_rows tb @ extra \<and>
            set extra \<subseteq> new_row (map fst (tbl_cols tb)) cols ` set rs) \<and>
   (\<forall>r \<in> set rs.
      new_row (map fst (tbl_cols tb)) cols r \<in> set (tbl_rows tb') \<or>
      (\<exists>u \<in> set (tbl_unique tb). \<exists>old \<in> set (tbl_rows tb').
         same_on (map fst (tbl_cols tb)) u old (new_row (map fst (tbl_cols tb)) cols r)))"
proof (induction rs arbitrary: tb)
  case Nil
  then show ?case by simp
next
  case (Cons r rs)
  let ?new = "new_row (map fst (tbl_cols tb)) cols r"
  from Cons.prems have len: "length r = length cols" and nn: "\<not> violates_notnull tb ?new"
    by (auto split: if_splits)
  show ?case
  proof (cases "conflicts tb ?new")
    case True
    with Cons.prems len nn have dn: dn and rest: "insert_rows tb cols dn rs = Inr tb'" by (simp_all split: if_splits)
    note ih = Cons.IH [OF rest]
    from ih obtain extra where extra: "tbl_rows tb' = tbl_rows tb @ extra"
      "set extra \<subseteq> new_row (map fst (tbl_cols tb)) cols ` set rs" by blast
    from True obtain u old where "u \<in> set (tbl_unique tb)" "old \<in> set (tbl_rows tb)"
      "same_on (map fst (tbl_cols tb)) u old ?new"
      by (auto simp: conflicts_def list_ex_iff)
    with extra have here: "\<exists>u \<in> set (tbl_unique tb). \<exists>old \<in> set (tbl_rows tb').
         same_on (map fst (tbl_cols tb)) u old ?new" by auto
    have ex: "\<exists>extra. tbl_rows tb' = tbl_rows tb @ extra \<and>
            set extra \<subseteq> new_row (map fst (tbl_cols tb)) cols ` set (r # rs)"
      using extra by (intro exI [of _ extra]) auto
    from ih here ex show ?thesis by simp
  next
    case False
    let ?tb1 = "tb\<lparr>tbl_rows := tbl_rows tb @ [?new]\<rparr>"
    from False Cons.prems len nn have rest: "insert_rows ?tb1 cols dn rs = Inr tb'" by simp
    note ih = Cons.IH [OF rest]
    from ih obtain extra where extra: "tbl_rows tb' = (tbl_rows tb @ [?new]) @ extra"
      "set extra \<subseteq> new_row (map fst (tbl_cols tb)) cols ` set rs" by auto
    have ex: "\<exists>extra'. tbl_rows tb' = tbl_rows tb @ extra' \<and>
            set extra' \<subseteq> new_row (map fst (tbl_cols tb)) cols ` set (r # rs)"
      using extra by (intro exI [of _ "?new # extra"]) auto
    from extra have here: "?new \<in> set (tbl_rows tb')" by simp
    from ih here ex show ?thesis by simp
  qed
qed

lemma resolve_replaced:
  "resolve db t = Some tb \<Longrightarrow> in_public t tb' \<Longrightarrow>
   resolve (map (\<lambda>x. if in_public t x then tb' else x) db) t = Some tb'"
  by (induction db) (auto simp: resolve_def)

lemma resolve_in_public: "resolve db t = Some tb \<Longrightarrow> in_public t tb"
  by (induction db) (auto simp: resolve_def split: if_splits)

lemma db_insert_result:
  assumes "db_insert db t cols dn rows = Inr db'"
  shows "\<exists>tb tb'. resolve db t = Some tb \<and> insert_rows tb cols dn rows = Inr tb' \<and>
                  resolve db' t = Some tb' \<and>
                  list_all (\<lambda>c. c \<in> set (map fst (tbl_cols tb))) cols"
proof -
  from assms obtain tb where tb: "resolve db t = Some tb"
    by (auto simp: db_insert_def split: option.splits)
  from assms tb obtain tb' where ins: "insert_rows tb cols dn rows = Inr tb'"
    and db': "db' = map (\<lambda>x. if in_public t x then tb' else x) db"
    and cols: "list_all (\<lambda>c. c \<in> set (map fst (tbl_cols tb))) cols"
    by (auto simp: db_insert_def split: if_splits sum.splits)
  from insert_rows_result [OF ins] resolve_in_public [OF tb] have "in_public t tb'"
    by (simp add: in_public_def)
  from resolve_replaced [OF tb this] db' have "resolve db' t = Some tb'" by simp
  with tb ins cols show ?thesis by blast
qed

subsection \<open>A sync whose try block completes\<close>

lemma sync_table_try_success:
  assumes "sync_table_try s t = (Inr (), s')"
  shows "\<exists>s1 missing cols s2.
           check_and_create_table s t = (Inr (), s1) \<and>
           get_missing_rows s1 t = (Inr (missing, cols), s2) \<and>
           (if missing = [] then conn_db (target_conn s') = conn_db (target_conn s2)
            else db_insert (conn_db (target_conn s2)) t cols True missing = Inr (conn_db (target_conn s')))"
proof -
  obtain r1 s1 where c: "check_and_create_table s t = (r1, s1)"
    by (cases "check_and_create_table s t")
  with assms have r1: "r1 = Inr ()" by (cases r1) (auto simp: sync_table_try_def)
  obtain r2 s2 where g: "get_missing_rows s1 t = (r2, s2)" by (cases "get_missing_rows s1 t")
  with assms c r1 obtain missing cols where r2: "r2 = Inr (missing, cols)"
    by (cases r2) (auto simp: sync_table_try_def)
  note unf = sync_table_try_unfold [OF c [unfolded r1] g [unfolded r2]]
  have "if missing = [] then conn_db (target_conn s') = conn_db (target_conn s2)
        else db_insert (conn_db (target_conn s2)) t cols True missing = Inr (conn_db (target_conn s'))"
  proof (cases "missing = []")
    case True
    with unf assms show ?thesis by (auto simp: log_msg_def)
  next
    case False
    with unf assms show ?thesis
      by (auto simp: execute_values_insert_stmt log_msg_def commit_def record_call_def
          split: sum.splits prod.splits if_splits)
  qed
  with c r1 g r2 show ?thesis by blast
qed

lemma uniques_cover_after_check:
  assumes "check_and_create_table s t = (Inr (), s1)"
    and "uniques_cover (conn_db (target_conn s)) t pks"
  shows "uniques_cover (conn_db (target_conn s1)) t pks"
proof (cases "db_table_exists (conn_db (target_conn s)) t")
  case True
  with check_and_create_table_target_db(1) [OF assms(1)] assms(2) show ?thesis by simp
next
  case False
  with check_and_create_table_target_db(1) [OF assms(1)]
  have "conn_db (target_conn s1) =
        conn_db (target_conn s) @ [new_table t (db_columns (conn_db (source_conn s)) t)]" by simp
  with resolve_created [OF False] show ?thesis
    by (simp add: uniques_cover_def new_table_def)
qed

lemma present_in_after_insert:
  assumes "db_insert db t cols dn rows = Inr db'" and "present_in db t pks kv"
  shows "present_in db' t pks kv"
proof -
  from db_insert_result [OF assms(1)] obtain tb tb' where tb: "resolve db t = Some tb"
    and ins: "insert_rows tb cols dn rows = Inr tb'" and tb': "resolve db' t = Some tb'" by blast
  from insert_rows_result [OF ins] obtain extra where "tbl_cols tb' = tbl_cols tb"
    "tbl_rows tb' = tbl_rows tb @ extra" by blast
  with assms(2) tb tb' show ?thesis by (auto simp: present_in_def list_ex_iff)
qed

lemma inserted_row_present:
  assumes ins: "db_insert db t cols dn rows = Inr db'"
    and row: "row \<in> set rows"
    and key: "key_of cols pks row = Some kv"
    and known: "db_probe db t pks vs = Inr found"
    and uniq: "uniques_cover db t pks"
  shows "present_in db' t pks kv"
proof -
  from db_insert_result [OF ins] obtain tb tb' where tb: "resolve db t = Some tb"
    and ir: "insert_rows tb cols dn rows = Inr tb'" and tb': "resolve db' t = Some tb'" by blast
  let ?tcols = "map fst (tbl_cols tb)"
  from known tb have pkcols: "list_all (\<lambda>k. k \<in> set ?tcols) pks"
    by (auto simp: db_probe_def split: if_splits)
  note res = insert_rows_result [OF ir]
  from res have cols': "tbl_cols tb' = tbl_cols tb" by simp
  from key_of_new_row [OF key pkcols] have knew: "key_of ?tcols pks (new_row ?tcols cols row) = Some kv" .
  from res row have "new_row ?tcols cols row \<in> set (tbl_rows tb') \<or>
      (\<exists>u \<in> set (tbl_unique tb). \<exists>old \<in> set (tbl_rows tb').
         same_on ?tcols u old (new_row ?tcols cols row))" by blast
  then have "\<exists>r \<in> set (tbl_rows tb'). key_of ?tcols pks r = Some kv"
  proof
    assume "new_row ?tcols cols row \<in> set (tbl_rows tb')"
    with knew show ?thesis by blast
  next
    assume "\<exists>u \<in> set (tbl_unique tb). \<exists>old \<in> set (tbl_rows tb').
         same_on ?tcols u old (new_row ?tcols cols row)"
    then obtain u old where u: "u \<in> set (tbl_unique tb)" and old: "old \<in> set (tbl_rows tb')"
      and same: "same_on ?tcols u old (new_row ?tcols cols row)" by blast
    from uniq tb u have "list_all (\<lambda>k. k \<in> set u) pks"
      by (auto simp: uniques_cover_def list_all_iff)
    from same_on_key [OF same this knew] old show ?thesis by blast
  qed
  with tb' cols' show ?thesis by (auto simp: present_in_def list_ex_iff)
qed

lemma completed_sync_rows:
  assumes completed: "sync_table_try s t = (Inr (), s')"
    and pk: "db_primary_keys (conn_db (source_conn s)) t = Inr pks" and ne: "pks \<noteq> []"
    and uniq: "uniques_cover (conn_db (target_conn s)) t pks"
  shows "\<exists>st. resolve (conn_db (source_conn s)) t = Some st \<and> tbl_pkey st = pks \<and>
           list_all (\<lambda>row. \<exists>d. pk_values pks (map fst (tbl_cols st)) row [] = Inr d \<and>
                        distinct pks \<and>
                        key_of (map fst (tbl_cols st)) pks row = Some (map snd d) \<and>
                        present_in (conn_db (target_conn s')) t pks (map snd d))
             (tbl_rows st)"
proof -
  from sync_table_try_success [OF completed] obtain s1 missing cols s2
    where c: "check_and_create_table s t = (Inr (), s1)"
      and g: "get_missing_rows s1 t = (Inr (missing, cols), s2)"
      and fin: "if missing = [] then conn_db (target_conn s') = conn_db (target_conn s2)
            else db_insert (conn_db (target_conn s2)) t cols True missing = Inr (conn_db (target_conn s'))"
    by blast
  from check_and_create_table_source_db [OF c]
  have src1: "conn_db (source_conn s1) = conn_db (source_conn s)" by simp
  from pk src1 have pk1: "db_primary_keys (conn_db (source_conn s1)) t = Inr pks" by simp
  from pk obtain st where st: "resolve (conn_db (source_conn s)) t = Some st" and pks: "tbl_pkey st = pks"
    by (auto simp: db_primary_keys_def split: option.splits)
  from st src1 have scan: "db_select_all (conn_db (source_conn s1)) t =
      Inr (tbl_rows st, map fst (tbl_cols st))"
    by (simp add: db_select_all_def)
  let ?cols = "map fst (tbl_cols st)"
  let ?db1 = "conn_db (target_conn s1)"
  from g obtain q params where sel: "select_all_rows t = Inr (q, params)"
    unfolding get_missing_rows_keyed [OF pk1 ne]
    by (cases "select_all_rows t") auto
  from g sel scan obtain tc where pr: "probe_rows (target_conn s1) t pks ?cols (tbl_rows st) [] = (Inr missing, tc)"
    and cols: "cols = ?cols"
    unfolding get_missing_rows_keyed [OF pk1 ne]
    by (auto split: prod.splits sum.splits)
  from get_missing_rows_frame(1) [OF g] have db2: "conn_db (target_conn s2) = ?db1" .
  note res = probe_rows_result [OF pr]
  from res have all: "list_all (\<lambda>row. \<exists>d found. pk_values pks ?cols row [] = Inr d \<and>
                     db_probe ?db1 t pks (map snd d) = Inr found) (tbl_rows st)"
    and miss: "missing = filter (absent_in ?db1 t pks ?cols) (tbl_rows st)" by simp_all
  note uniq1 = uniques_cover_after_check [OF c uniq]
  have each: "\<exists>d. pk_values pks ?cols row [] = Inr d \<and> distinct pks \<and>
                  key_of ?cols pks row = Some (map snd d) \<and>
                  present_in (conn_db (target_conn s')) t pks (map snd d)"
    if row: "row \<in> set (tbl_rows st)" for row
  proof -
    from all row obtain d found where d: "pk_values pks ?cols row [] = Inr d"
      and f: "db_probe ?db1 t pks (map snd d) = Inr found"
      by (auto simp: list_all_iff)
    from probed_params [OF d f] have dist: "distinct pks"
      and key: "key_of ?cols pks row = Some (map snd d)" by simp_all
    have "present_in (conn_db (target_conn s')) t pks (map snd d)"
    proof (cases found)
      case True
      with f have p1: "present_in ?db1 t pks (map snd d)" by (simp add: probe_found_present)
      show ?thesis
      proof (cases "missing = []")
        case True
        with fin db2 p1 show ?thesis by simp
      next
        case False
        with fin db2 have "db_insert ?db1 t cols True missing = Inr (conn_db (target_conn s'))" by simp
        from present_in_after_insert [OF this p1] show ?thesis .
      qed
    next
      case False
      with d f have "absent_in ?db1 t pks ?cols row" by (simp add: absent_in_def)
      with miss row have rm: "row \<in> set missing" by simp
      then have "missing \<noteq> []" by auto
      with fin db2 cols have ins: "db_insert ?db1 t ?cols True missing = Inr (conn_db (target_conn s'))"
        by simp
      from inserted_row_present [OF ins rm key f uniq1] show ?thesis .
    qed
    with d dist key show ?thesis by blast
  qed
  then have "list_all (\<lambda>row. \<exists>d. pk_values pks ?cols row [] = Inr d \<and> distinct pks \<and>
                        key_of ?cols pks row = Some (map snd d) \<and>
                        present_in (conn_db (target_conn s')) t pks (map snd d)) (tbl_rows st)"
    by (simp add: list_all_iff)
  with st pks show ?thesis by blast
qed

subsection \<open>After a completed sync every source row is in the target\<close>

text \<open>
  A connection is clean when its transaction holds no uncommitted change.  Connections
  start clean, and \<open>sync_table\<close> leaves the target connection clean however it ends: a
  completed \<open>try\<close> block has committed what it inserted, a failed one is rolled back.
\<close>

lemma sync_table_try_success_committed:
  assumes completed: "sync_table_try s t = (Inr (), s')"
    and clean: "conn_committed (target_conn s) = conn_db (target_conn s)"
  shows "conn_committed (target_conn s') = conn_db (target_conn s')"
proof -
  obtain r1 s1 where c: "check_and_create_table s t = (r1, s1)"
    by (cases "check_and_create_table s t")
  with completed have r1: "r1 = Inr ()" by (cases r1) (auto simp: sync_table_try_def)
  obtain r2 s2 where g: "get_missing_rows s1 t = (r2, s2)" by (cases "get_missing_rows s1 t")
  with completed c r1 obtain missing cols where r2: "r2 = Inr (missing, cols)"
    by (cases r2) (auto simp: sync_table_try_def)
  note unf = sync_table_try_unfold [OF c [unfolded r1] g [unfolded r2]]
  from check_and_create_table_target_db [OF c [unfolded r1]] clean
  have clean1: "conn_committed (target_conn s1) = conn_db (target_conn s1)" by (simp split: if_splits)
  from get_missing_rows_frame(1,2) [OF g] clean1
  have clean2: "conn_committed (target_conn s2) = conn_db (target_conn s2)" by simp
  show ?thesis
  proof (cases "missing = []")
    case True
    with unf completed clean2 show ?thesis by (auto simp: log_msg_def)
  next
    case False
    with unf completed show ?thesis
      by (auto simp: log_msg_def commit_def record_call_def split: sum.splits prod.splits)
  qed
qed

lemma sync_table_keeps_clean:
  assumes run: "sync_table s t = (r, s')"
    and clean: "conn_committed (target_conn s) = conn_db (target_conn s)"
  shows "conn_committed (target_conn s') = conn_db (target_conn s')"
proof -
  obtain r0 s0 where body: "sync_table_try s t = (r0, s0)" by (cases "sync_table_try s t")
  show ?thesis
  proof (cases r0)
    case (Inl e)
    with body run show ?thesis
      by (auto simp: sync_table_def log_msg_def rollback_def record_call_def split: if_splits)
  next
    case (Inr u)
    with body have ok: "sync_table_try s t = (Inr (), s0)" by simp
    from sync_table_try_success_committed [OF ok clean] ok run show ?thesis
      by (simp add: sync_table_def)
  qed
qed

text \<open>
  Claim C1, as amended.  For a table with a nonempty primary key, on a target connection
  with no uncommitted change: if the \<open>try\<close> block of \<open>sync_table\<close> completes without any
  exception (so \<open>sync_table\<close> returns by its normal path, not through the handler that
  swallows an integrity error), and every uniqueness constraint of the target table
  includes all primary-key columns, then every row of the source table is present in the
  committed state of the target table, keyed by its primary-key values, and the target
  connection holds no uncommitted change.
\<close>

theorem completed_sync_has_every_source_row:
  assumes completed: "sync_table_try s t = (Inr (), s')"
    and clean: "conn_committed (target_conn s) = conn_db (target_conn s)"
    and pk: "db_primary_keys (conn_db (source_conn s)) t = Inr pks" and ne: "pks \<noteq> []"
    and uniq: "uniques_cover (conn_db (target_conn s)) t pks"
  shows "sync_table s t = (Inr (), s') \<and>
         conn_committed (target_conn s') = conn_db (target_conn s') \<and>
         all_rows_present (conn_db (source_conn s)) (conn_committed (target_conn s')) t"
proof -
  from completed_sync_rows [OF completed pk ne uniq] obtain st
    where st: "resolve (conn_db (source_conn s)) t = Some st" and pks: "tbl_pkey st = pks"
      and rows: "list_all (\<lambda>row. \<exists>d. pk_values pks (map fst (tbl_cols st)) row [] = Inr d \<and>
                        distinct pks \<and>
                        key_of (map fst (tbl_cols st)) pks row = Some (map snd d) \<and>
                        present_in (conn_db (target_conn s')) t pks (map snd d))
             (tbl_rows st)" by blast
  note committed = sync_table_try_success_committed [OF completed clean]
  from rows have "list_all (\<lambda>row. case key_of (map fst (tbl_cols st)) pks row of
                            None \<Rightarrow> False
                          | Some kv \<Rightarrow> present_in (conn_db (target_conn s')) t pks kv) (tbl_rows st)"
    by (auto simp: list_all_iff)
  with st pks have "all_rows_present (conn_db (source_conn s)) (conn_db (target_conn s')) t"
    by (simp add: all_rows_present_def cong: option.case_cong)
  with committed
  have "all_rows_present (conn_db (source_conn s)) (conn_committed (target_conn s')) t" by simp
  moreover from completed have "sync_table s t = (Inr (), s')" by (simp add: sync_table_def)
  ultimately show ?thesis using committed by simp
qed

text \<open>
  Claim C1 as stated fails: \<open>sync_table\<close> also returns without raising when the bulk
  insert hits an integrity error (here: a NULL for a NOT NULL column of the target), and
  then the transaction is rolled back and the source rows stay missing.
\<close>

theorem swallowed_integrity_error_leaves_rows_missing:
  "fst (sync_table (sync_of [users_source] [users_strict]) ''users'') = Inr () \<and>
   tbl_pkey users_source \<noteq> [] \<and>
   resolve (conn_db (source_conn (sync_of [users_source] [users_strict]))) ''users'' = Some users_source \<and>
   \<not> all_rows_present (conn_db (source_conn (sync_of [users_source] [users_strict])))
        (conn_db (target_conn (snd (sync_table (sync_of [users_source] [users_strict]) ''users''))))
        ''users''"
  by code_simp

text \<open>
  Why the amended claim needs the condition on the uniqueness constraints: a source row
  that collides with a target row on another unique column is dropped by
  \<open>ON CONFLICT DO NOTHING\<close>, and the sync completes and commits without it.
\<close>

lemma conflict_on_other_unique_example:
  "fst (sync_table_try (sync_of [users_source] [users_named]) ''users'') = Inr () \<and>
   \<not> uniques_cover (conn_db (target_conn (sync_of [users_source] [users_named]))) ''users'' [''id''] \<and>
   \<not> all_rows_present (conn_db (source_conn (sync_of [users_source] [users_named])))
        (conn_db (target_conn (snd (sync_table_try (sync_of [users_source] [users_named]) ''users''))))
        ''users''"
  by code_simp

lemma completed_example:
  "fst (sync_table_try (sync_of [users_source] [users_target]) ''users'') = Inr ()"
  by code_simp

lemma completed_example_rows:
  "map tbl_rows (conn_committed (target_conn (snd (sync_table_try (sync_of [users_source] [users_target]) ''users''))))
     = [[IntV 1, TextV ''old''] # [IntV 2, Null] # []]"
  by code_simp

theorem completed_sync_has_every_source_row_witness:
  "fst (sync_table_try (sync_of [users_source] [users_target]) ''users'') = Inr () \<and>
   conn_committed (target_conn (sync_of [users_source] [users_target])) =
     conn_db (target_conn (sync_of [users_source] [users_target])) \<and>
   db_primary_keys (conn_db (source_conn (sync_of [users_source] [users_target]))) ''users'' = Inr [''id''] \<and>
   uniques_cover (conn_db (target_conn (sync_of [users_source] [users_target]))) ''users'' [''id''] \<and>
   fst (sync_table (sync_of [users_source] [users_target]) ''users'') = Inr () \<and>
   all_rows_present (conn_db (source_conn (sync_of [users_source] [users_target])))
     (conn_committed (target_conn (snd (sync_table_try (sync_of [users_source] [users_target]) ''users''))))
     ''users'' \<and>
   map tbl_rows (conn_committed (target_conn (snd (sync_table_try (sync_of [users_source] [users_target]) ''users''))))
     = [[IntV 1, TextV ''old''] # [IntV 2, Null] # []]"
proof -
  have completed: "sync_table_try (sync_of [users_source] [users_target]) ''users'' =
      (Inr (), snd (sync_table_try (sync_of [users_source] [users_target]) ''users''))"
    using completed_example by (metis prod.collapse)
  have clean: "conn_committed (target_conn (sync_of [users_source] [users_target])) =
     conn_db (target_conn (sync_of [users_source] [users_target]))"
    by (simp add: sync_of_def new_connection_def)
  have pk: "db_primary_keys (conn_db (source_conn (sync_of [users_source] [users_target]))) ''users'' = Inr [''id'']"
    by (simp add: sync_of_def new_connection_def users_source_def db_primary_keys_def resolve_def
          in_public_def)
  have ne: "[''id''] \<noteq> []" by simp
  have uniq: "uniques_cover (conn_db (target_conn (sync_of [users_source] [users_target]))) ''users'' [''id'']"
    by (simp add: sync_of_def new_connection_def users_target_def uniques_cover_def resolve_def
          in_public_def)
  from completed_sync_has_every_source_row [OF completed clean pk ne uniq]
  have "fst (sync_table (sync_of [users_source] [users_target]) ''users'') = Inr ()"
    and "all_rows_present (conn_db (source_conn (sync_of [users_source] [users_target])))
     (conn_committed (target_conn (snd (sync_table_try (sync_of [users_source] [users_target]) ''users''))))
     ''users''"
    by (simp, blast)
  with completed_example completed_example_rows clean pk uniq show ?thesis by blast
qed

subsection \<open>Running the sync a second time\<close>

lemma key_of_columns:
  "key_of tcols pks r = Some kv \<Longrightarrow> list_all (\<lambda>k. k \<in> set tcols) pks"
proof (induction pks arbitrary: kv)
  case Nil
  then show ?case by simp
next
  case (Cons k ks)
  from Cons.prems obtain v kv' where v: "cell tcols r k = Some v" and kv': "key_of tcols ks r = Some kv'"
    by (auto split: option.splits)
  have "index_of x xs = Some i \<Longrightarrow> x \<in> set xs" for x :: string and xs i
    by (induction xs arbitrary: i) (auto split: if_splits)
  with v have "k \<in> set tcols" by (auto simp: cell_def split: option.splits)
  with Cons.IH [OF kv'] show ?case by simp
qed

lemma present_probe:
  assumes "present_in db t pks kv" and "Null \<notin> set kv"
  shows "db_probe db t pks kv = Inr True"
proof -
  from assms(1) obtain tt r where tt: "resolve db t = Some tt" and r: "r \<in> set (tbl_rows tt)"
    and key: "key_of (map fst (tbl_cols tt)) pks r = Some kv"
    by (auto simp: present_in_def list_ex_iff split: option.splits)
  from key_of_length [OF key] have len: "length kv = length pks" .
  from key_of_columns [OF key] have cols: "list_all (\<lambda>k. k \<in> set (map fst (tbl_cols tt))) pks" .
  from key_row_matches [OF key assms(2)] r
  have "list_ex (row_matches (map fst (tbl_cols tt)) pks kv) (tbl_rows tt)"
    by (auto simp: list_ex_iff)
  with tt len cols show ?thesis by (simp add: db_probe_def)
qed

lemma db_insert_exists:
  "db_insert db t cols dn rows = Inr db' \<Longrightarrow> db_table_exists db' t"
proof -
  assume "db_insert db t cols dn rows = Inr db'"
  from db_insert_result [OF this] obtain tb' where tb': "resolve db' t = Some tb'" by blast
  have "find P xs = Some x \<Longrightarrow> x \<in> set xs \<and> P x" for P :: "table \<Rightarrow> bool" and xs x
    by (induction xs) (auto split: if_splits)
  from this [of "in_public t" db' tb'] tb' have "tb' \<in> set db'" "in_public t tb'"
    by (simp_all add: resolve_def)
  then show ?thesis by (auto simp: db_table_exists_iff in_public_def)
qed

lemma check_and_create_table_exists:
  assumes "check_and_create_table s t = (Inr (), s1)"
  shows "db_table_exists (conn_db (target_conn s1)) t"
proof (cases "db_table_exists (conn_db (target_conn s)) t")
  case True
  with check_and_create_table_target_db(1) [OF assms] show ?thesis by simp
next
  case False
  with check_and_create_table_target_db(1) [OF assms] show ?thesis
    by (simp add: db_table_exists_def named_def new_table_def)
qed

lemma sync_table_try_success_frame:
  assumes "sync_table_try s t = (Inr (), s')"
  shows "conn_db (source_conn s') = conn_db (source_conn s) \<and>
         db_table_exists (conn_db (target_conn s')) t"
proof -
  obtain r1 s1 where c: "check_and_create_table s t = (r1, s1)"
    by (cases "check_and_create_table s t")
  with assms have r1: "r1 = Inr ()" by (cases r1) (auto simp: sync_table_try_def)
  obtain r2 s2 where g: "get_missing_rows s1 t = (r2, s2)" by (cases "get_missing_rows s1 t")
  with assms c r1 obtain missing cols where r2: "r2 = Inr (missing, cols)"
    by (cases r2) (auto simp: sync_table_try_def)
  note unf = sync_table_try_unfold [OF c [unfolded r1] g [unfolded r2]]
  from check_and_create_table_source_db [OF c] get_missing_rows_frame(3) [OF g]
  have src2: "conn_db (source_conn s2) = conn_db (source_conn s)" by simp
  from check_and_create_table_exists [OF c [unfolded r1]] get_missing_rows_frame(1) [OF g]
  have ex2: "db_table_exists (conn_db (target_conn s2)) t" by simp
  show ?thesis
  proof (cases "missing = []")
    case True
    with unf assms src2 ex2 show ?thesis by (auto simp: log_msg_def)
  next
    case False
    with unf assms obtain tc where ev: "execute_values (target_conn s2) (insert_stmt t cols) missing = (Inr (), tc)"
      and s': "s' = log_msg INFO (''Synced table '' @ t @ '' successfully with '' @
                               str_nat (length missing) @ '' rows.'')
                   (s2\<lparr>target_conn := commit tc\<rparr>)"
      by (auto split: sum.splits prod.splits)
    from ev have "db_insert (conn_db (target_conn s2)) t cols True missing = Inr (conn_db tc)"
      by (auto simp: execute_values_insert_stmt record_call_def split: sum.splits if_splits)
    from db_insert_exists [OF this] s' src2 show ?thesis
      by (simp add: log_msg_def commit_def record_call_def)
  qed
qed

lemma completed_sync_select:
  assumes completed: "sync_table_try s t = (Inr (), s')"
    and pk: "db_primary_keys (conn_db (source_conn s)) t = Inr pks" and ne: "pks \<noteq> []"
  shows "\<exists>q params. select_all_rows t = Inr (q, params)"
proof -
  from sync_table_try_success [OF completed] obtain s1 missing cols s2
    where c: "check_and_create_table s t = (Inr (), s1)"
      and g: "get_missing_rows s1 t = (Inr (missing, cols), s2)" by blast
  from check_and_create_table_source_db [OF c] pk
  have pk1: "db_primary_keys (conn_db (source_conn s1)) t = Inr pks" by simp
  from g show ?thesis
    unfolding get_missing_rows_keyed [OF pk1 ne]
    by (cases "select_all_rows t") auto
qed

text \<open>
  Claim C2, as amended.  For a table with a nonempty primary key whose key columns hold no
  NULL in the source: if the \<open>try\<close> block of a first \<open>sync_table\<close> completes without any
  exception and every uniqueness constraint of the target table includes all primary-key
  columns, then a second \<open>sync_table\<close> right after it computes an empty list of missing
  rows, returns normally and leaves the target database as the first run left it.
\<close>

theorem second_sync_finds_nothing_missing:
  assumes first: "sync_table_try s t = (Inr (), s1)"
    and pk: "db_primary_keys (conn_db (source_conn s)) t = Inr pks" and ne: "pks \<noteq> []"
    and uniq: "uniques_cover (conn_db (target_conn s)) t pks"
    and nn: "keys_not_null (conn_db (source_conn s)) t"
  shows "(\<exists>cols. fst (get_missing_rows (snd (check_and_create_table s1 t)) t) = Inr ([], cols)) \<and>
         fst (sync_table s1 t) = Inr () \<and>
         conn_db (target_conn (snd (sync_table s1 t))) = conn_db (target_conn s1) \<and>
         conn_committed (target_conn (snd (sync_table s1 t))) = conn_committed (target_conn s1)"
proof -
  from sync_table_try_success_frame [OF first]
  have src1: "conn_db (source_conn s1) = conn_db (source_conn s)"
    and ex1: "db_table_exists (conn_db (target_conn s1)) t" by simp_all
  let ?s1' = "log_msg INFO (t @ '' already exists in target database.'')
        (s1\<lparr>target_conn := record_call (target_conn s1)
              (Execute (fst (check_table_exists t)) (snd (check_table_exists t)))\<rparr>)"
  from cact_exists [OF ex1] have c2: "check_and_create_table s1 t = (Inr (), ?s1')" .
  have tgt1': "conn_db (target_conn ?s1') = conn_db (target_conn s1)"
    and com1': "conn_committed (target_conn ?s1') = conn_committed (target_conn s1)"
    and src1': "conn_db (source_conn ?s1') = conn_db (source_conn s)"
    by (simp_all add: log_msg_def record_call_def src1)
  from pk src1' have pk1': "db_primary_keys (conn_db (source_conn ?s1')) t = Inr pks" by simp
  from completed_sync_rows [OF first pk ne uniq] obtain st
    where st: "resolve (conn_db (source_conn s)) t = Some st" and pks: "tbl_pkey st = pks"
      and rows: "list_all (\<lambda>row. \<exists>d. pk_values pks (map fst (tbl_cols st)) row [] = Inr d \<and>
                        distinct pks \<and>
                        key_of (map fst (tbl_cols st)) pks row = Some (map snd d) \<and>
                        present_in (conn_db (target_conn s1)) t pks (map snd d))
             (tbl_rows st)" by blast
  let ?cols = "map fst (tbl_cols st)"
  from nn st pks have notnull: "list_all (\<lambda>row. case key_of ?cols pks row of
                            None \<Rightarrow> False | Some kv \<Rightarrow> Null \<notin> set kv) (tbl_rows st)"
    by (simp add: keys_not_null_def cong: option.case_cong)
  have each: "\<exists>d. pk_values pks ?cols row [] = Inr d \<and>
                  db_probe (conn_db (target_conn s1)) t pks (map snd d) = Inr True"
    if row: "row \<in> set (tbl_rows st)" for row
  proof -
    from rows row obtain d where d: "pk_values pks ?cols row [] = Inr d"
      and key: "key_of ?cols pks row = Some (map snd d)"
      and pres: "present_in (conn_db (target_conn s1)) t pks (map snd d)"
      by (auto simp: list_all_iff)
    from notnull row have "case key_of ?cols pks row of None \<Rightarrow> False | Some kv \<Rightarrow> Null \<notin> set kv"
      by (simp add: list_all_iff)
    with key have "Null \<notin> set (map snd d)" by simp
    from present_probe [OF pres this] d show ?thesis by blast
  qed
  then have total: "list_all (\<lambda>row. \<exists>d found. pk_values pks ?cols row [] = Inr d \<and>
                     db_probe (conn_db (target_conn ?s1')) t pks (map snd d) = Inr found) (tbl_rows st)"
    unfolding tgt1' list_all_iff by blast
  have none: "filter (absent_in (conn_db (target_conn ?s1')) t pks ?cols) (tbl_rows st) = []"
    unfolding tgt1' filter_empty_conv
  proof
    fix row assume "row \<in> set (tbl_rows st)"
    from each [OF this] show "\<not> absent_in (conn_db (target_conn s1)) t pks ?cols row"
      by (auto simp: absent_in_def)
  qed
  from probe_rows_total [OF total, of "[]"] none
  have "fst (probe_rows (target_conn ?s1') t pks ?cols (tbl_rows st) []) = Inr []" by simp
  then obtain tc where pr: "probe_rows (target_conn ?s1') t pks ?cols (tbl_rows st) [] = (Inr [], tc)"
    by (cases "probe_rows (target_conn ?s1') t pks ?cols (tbl_rows st) []") auto
  from completed_sync_select [OF first pk ne] obtain q params
    where sel: "select_all_rows t = Inr (q, params)" by blast
  from st src1' have scan: "db_select_all (conn_db (source_conn ?s1')) t = Inr (tbl_rows st, ?cols)"
    by (simp add: db_select_all_def)
  obtain s2 where g2: "get_missing_rows ?s1' t = (Inr ([], ?cols), s2)"
    unfolding get_missing_rows_keyed [OF pk1' ne] sel scan using pr by simp
  note fr = get_missing_rows_frame(1,2) [OF g2]
  from sync_table_try_unfold [OF c2 g2]
  have body: "sync_table_try s1 t = (Inr (), log_msg INFO (''No missing rows to sync for '' @ t) s2)"
    by simp
  then have st2: "sync_table s1 t = (Inr (), log_msg INFO (''No missing rows to sync for '' @ t) s2)"
    by (simp add: sync_table_def)
  from c2 g2 have "\<exists>cols. fst (get_missing_rows (snd (check_and_create_table s1 t)) t) = Inr ([], cols)"
    by simp
  with st2 fr tgt1' com1' show ?thesis by (simp add: log_msg_def)
qed

text \<open>
  Claim C2 as stated fails: a first run that ends in the swallowed integrity error has
  inserted nothing, so the diff of the second run is not empty.
\<close>

theorem second_run_after_integrity_error_finds_rows_missing:
  "fst (sync_table (sync_of [users_source] [users_strict]) ''users'') = Inr () \<and>
   tbl_pkey users_source \<noteq> [] \<and>
   fst (get_missing_rows
          (snd (check_and_create_table
                  (snd (sync_table (sync_of [users_source] [users_strict]) ''users'')) ''users''))
          ''users'') = Inr ([IntV 2, Null] # [], [''id'', ''name''])"
  by code_simp

lemma completed_example_second:
  "keys_not_null (conn_db (source_conn (sync_of [users_source] [users_target]))) ''users''"
  by code_simp

theorem second_sync_finds_nothing_missing_witness:
  "fst (sync_table_try (sync_of [users_source] [users_target]) ''users'') = Inr () \<and>
   db_primary_keys (conn_db (source_conn (sync_of [users_source] [users_target]))) ''users'' = Inr [''id''] \<and>
   uniques_cover (conn_db (target_conn (sync_of [users_source] [users_target]))) ''users'' [''id''] \<and>
   keys_not_null (conn_db (source_conn (sync_of [users_source] [users_target]))) ''users'' \<and>
   (\<exists>cols. fst (get_missing_rows
                  (snd (check_and_create_table
                     (snd (sync_table_try (sync_of [users_source] [users_target]) ''users'')) ''users''))
                  ''users'') = Inr ([], cols)) \<and>
   fst (sync_table (snd (sync_table_try (sync_of [users_source] [users_target]) ''users'')) ''users'')
     = Inr () \<and>
   conn_db (target_conn (snd (sync_table
       (snd (sync_table_try (sync_of [users_source] [users_target]) ''users'')) ''users''))) =
     conn_db (target_conn (snd (sync_table_try (sync_of [users_source] [users_target]) ''users'')))"
proof -
  have completed: "sync_table_try (sync_of [users_source] [users_target]) ''users'' =
      (Inr (), snd (sync_table_try (sync_of [users_source] [users_target]) ''users''))"
    using completed_example by (metis prod.collapse)
  have pk: "db_primary_keys (conn_db (source_conn (sync_of [users_source] [users_target]))) ''users'' = Inr [''id'']"
    by (simp add: sync_of_def new_connection_def users_source_def db_primary_keys_def resolve_def
          in_public_def)
  have ne: "[''id''] \<noteq> []" by simp
  have uniq: "uniques_cover (conn_db (target_conn (sync_of [users_source] [users_target]))) ''users'' [''id'']"
    by (simp add: sync_of_def new_connection_def users_target_def uniques_cover_def resolve_def
          in_public_def)
  from second_sync_finds_nothing_missing [OF completed pk ne uniq completed_example_second]
    completed_example pk uniq completed_example_second
  show ?thesis by blast
qed

subsection \<open>Rows the target already holds\<close>

lemma missing_rows_absent:
  assumes g: "get_missing_rows s t = (Inr (missing, cols), s')"
    and pk: "db_primary_keys (conn_db (source_conn s)) t = Inr pks"
    and row: "row \<in> set missing"
  shows "\<exists>vs. key_of cols pks row = Some vs \<and>
              db_probe (conn_db (target_conn s)) t pks vs = Inr False"
proof (cases "pks = []")
  case True
  with g pk have "missing = []" by (simp add: get_missing_rows_no_pk)
  with row show ?thesis by simp
next
  case False
  from g obtain q params where sel: "select_all_rows t = Inr (q, params)"
    unfolding get_missing_rows_keyed [OF pk False]
    by (cases "select_all_rows t") auto
  from g sel obtain rows scols where scan: "db_select_all (conn_db (source_conn s)) t = Inr (rows, scols)"
    unfolding get_missing_rows_keyed [OF pk False]
    by (cases "db_select_all (conn_db (source_conn s)) t") auto
  from g sel scan obtain tc where pr: "probe_rows (target_conn s) t pks scols rows [] = (Inr missing, tc)"
    and cols: "cols = scols"
    unfolding get_missing_rows_keyed [OF pk False]
    by (auto split: prod.splits sum.splits)
  from probe_rows_result [OF pr] row
  have "absent_in (conn_db (target_conn s)) t pks scols row" by simp
  then obtain d where d: "pk_values pks scols row [] = Inr d"
    and f: "db_probe (conn_db (target_conn s)) t pks (map snd d) = Inr False"
    by (auto simp: absent_in_def split: sum.splits)
  from probed_params [OF d f] f cols show ?thesis by auto
qed

lemma existing_rows_kept:
  assumes run: "sync_table s t = (res, s')"
    and clean: "conn_committed (target_conn s) = conn_db (target_conn s)"
    and tt: "resolve (conn_db (target_conn s)) t = Some tt"
    and pk: "db_primary_keys (conn_db (source_conn s)) t = Inr pks"
    and nonnull: "Null \<notin> set kv"
    and held: "present_in (conn_db (target_conn s)) t pks kv"
  shows "\<exists>tt'. resolve (conn_db (target_conn s')) t = Some tt' \<and> tbl_cols tt' = tbl_cols tt \<and>
           (\<exists>extra. tbl_rows tt' = tbl_rows tt @ extra) \<and>
           filter (\<lambda>r. key_of (map fst (tbl_cols tt)) pks r = Some kv) (tbl_rows tt') =
           filter (\<lambda>r. key_of (map fst (tbl_cols tt)) pks r = Some kv) (tbl_rows tt)"
proof -
  let ?db = "conn_db (target_conn s)"
  have same: ?thesis if "conn_db (target_conn s') = ?db"
    using that tt by simp
  have "find P xs = Some x \<Longrightarrow> x \<in> set xs \<and> P x" for P :: "table \<Rightarrow> bool" and xs x
    by (induction xs) (auto split: if_splits)
  from this [of "in_public t" ?db tt] tt have ex: "db_table_exists ?db t"
    by (auto simp: resolve_def db_table_exists_iff in_public_def)
  let ?s1 = "log_msg INFO (t @ '' already exists in target database.'')
        (s\<lparr>target_conn := record_call (target_conn s)
              (Execute (fst (check_table_exists t)) (snd (check_table_exists t)))\<rparr>)"
  from cact_exists [OF ex] have c: "check_and_create_table s t = (Inr (), ?s1)" .
  have db1: "conn_db (target_conn ?s1) = ?db" and com1: "conn_committed (target_conn ?s1) = ?db"
    and src1: "conn_db (source_conn ?s1) = conn_db (source_conn s)"
    by (simp_all add: log_msg_def record_call_def clean)
  obtain r sx where body: "sync_table_try s t = (r, sx)" by (cases "sync_table_try s t")
  show ?thesis
  proof (cases r)
    case (Inl e)
    from sync_table_try_committed_on_error [OF body [unfolded Inl]] c com1
    have "conn_committed (target_conn sx) = ?db" by simp
    with run body Inl have "conn_db (target_conn s') = ?db"
      by (auto simp: sync_table_def log_msg_def rollback_def record_call_def split: if_splits)
    then show ?thesis by (rule same)
  next
    case (Inr u)
    with body run have s': "s' = sx" and ok: "sync_table_try s t = (Inr (), s')"
      by (simp_all add: sync_table_def)
    from sync_table_try_success [OF ok] c obtain missing cols s2
      where g: "get_missing_rows ?s1 t = (Inr (missing, cols), s2)"
        and fin: "if missing = [] then conn_db (target_conn s') = conn_db (target_conn s2)
            else db_insert (conn_db (target_conn s2)) t cols True missing = Inr (conn_db (target_conn s'))"
      by auto
    from get_missing_rows_frame(1) [OF g] db1 have db2: "conn_db (target_conn s2) = ?db" by simp
    show ?thesis
    proof (cases "missing = []")
      case True
      with fin db2 have "conn_db (target_conn s') = ?db" by simp
      then show ?thesis by (rule same)
    next
      case False
      with fin db2 have ins: "db_insert ?db t cols True missing = Inr (conn_db (target_conn s'))" by simp
      from db_insert_result [OF ins] tt obtain tb' where ir: "insert_rows tt cols True missing = Inr tb'"
        and tb': "resolve (conn_db (target_conn s')) t = Some tb'" by auto
      let ?tcols = "map fst (tbl_cols tt)"
      from insert_rows_result [OF ir] obtain extra where cols': "tbl_cols tb' = tbl_cols tt"
        and rows': "tbl_rows tb' = tbl_rows tt @ extra"
        and sub: "set extra \<subseteq> new_row ?tcols cols ` set missing" by blast
      from pk src1 have pk1: "db_primary_keys (conn_db (source_conn ?s1)) t = Inr pks" by simp
      from present_probe [OF held nonnull] have found: "db_probe ?db t pks kv = Inr True" .
      have "filter (\<lambda>r. key_of ?tcols pks r = Some kv) extra = []"
        unfolding filter_empty_conv
      proof
        fix r assume "r \<in> set extra"
        with sub obtain row where row: "row \<in> set missing" and r: "r = new_row ?tcols cols row"
          by auto
        from missing_rows_absent [OF g pk1 row] db1 obtain vs
          where key: "key_of cols pks row = Some vs" and pr: "db_probe ?db t pks vs = Inr False"
          by auto
        from pr tt have "list_all (\<lambda>k. k \<in> set ?tcols) pks"
          by (auto simp: db_probe_def split: if_splits)
        from key_of_new_row [OF key this] r have "key_of ?tcols pks r = Some vs" by simp
        with pr found show "\<not> key_of ?tcols pks r = Some kv" by auto
      qed
      with rows' cols' tb' show ?thesis by simp
    qed
  qed
qed

lemma insert_statement_rendered:
  "as_string (insert_stmt t cols) =
     ''INSERT INTO '' @ quote_ident t @ '' ('' @ str_join '', '' (map quote_ident cols) @
     '') VALUES %s ON CONFLICT DO NOTHING''"
  by (simp add: insert_stmt_def as_string_sql_join comp_def)

lemma do_nothing_inserts_append:
  "do_nothing_inserts t (xs @ ys) \<longleftrightarrow> do_nothing_inserts t xs \<and> do_nothing_inserts t ys"
  by (simp add: do_nothing_inserts_def)

lemma do_nothing_insert_stmt:
  "cols \<noteq> [] \<Longrightarrow> do_nothing_inserts t [ExecuteValues (insert_stmt t cols) rows]"
  by (simp add: do_nothing_inserts_def parse_insert_stmt insert_statement_rendered)

lemma check_and_create_table_calls:
  "check_and_create_table s t = (r, s1) \<Longrightarrow>
   \<exists>cs. conn_calls (target_conn s1) = conn_calls (target_conn s) @ cs \<and> do_nothing_inserts t' cs"
  by (cases "db_table_exists (conn_db (target_conn s)) t")
     (auto simp: cact_exists cact_absent log_msg_def record_call_def commit_def
        do_nothing_inserts_def split: sum.splits)

lemma probe_rows_calls:
  "probe_rows tc t pks cols rows m = (r, tc') \<Longrightarrow>
   \<exists>cs. conn_calls tc' = conn_calls tc @ cs \<and> do_nothing_inserts t' cs"
proof (induction rows arbitrary: tc m)
  case Nil
  then show ?case by (simp add: do_nothing_inserts_def)
next
  case (Cons row rows)
  show ?case
  proof (cases "pk_values pks cols row []")
    case (Inl e)
    with Cons.prems show ?thesis by (simp add: do_nothing_inserts_def)
  next
    case (Inr d)
    let ?tc1 = "record_call tc (Execute (probe_stmt t pks) (map snd d))"
    have one: "conn_calls ?tc1 = conn_calls tc @ [Execute (probe_stmt t pks) (map snd d)]"
      by (simp add: record_call_def)
    have ok: "do_nothing_inserts t' [Execute (probe_stmt t pks) (map snd d)]"
      by (simp add: do_nothing_inserts_def)
    show ?thesis
    proof (cases "db_probe (conn_db tc) t pks (map snd d)")
      case (Inl e)
      with Inr Cons.prems have "tc' = ?tc1" by (auto simp: probe_format probe_stmt_def)
      with one ok show ?thesis by blast
    next
      case found: (Inr found)
      from Cons.prems Inr found
      have "probe_rows ?tc1 t pks cols rows (if found then m else m @ [row]) = (r, tc')"
        by (simp add: probe_format probe_stmt_def)
      from Cons.IH [OF this] obtain cs where "conn_calls tc' = conn_calls ?tc1 @ cs"
        "do_nothing_inserts t' cs" by blast
      with one ok have "conn_calls tc' = conn_calls tc @ (Execute (probe_stmt t pks) (map snd d) # cs)"
        "do_nothing_inserts t' (Execute (probe_stmt t pks) (map snd d) # cs)"
        by (simp_all add: do_nothing_inserts_def)
      then show ?thesis by blast
    qed
  qed
qed

lemma get_missing_rows_calls:
  assumes "get_missing_rows s t = (r, s')"
  shows "\<exists>cs. conn_calls (target_conn s') = conn_calls (target_conn s) @ cs \<and>
              do_nothing_inserts t' cs"
proof -
  have none: "do_nothing_inserts t' []" by (simp add: do_nothing_inserts_def)
  from assms show ?thesis
    using none
    by (auto simp: get_missing_rows_def get_primary_keys_def Let_def log_msg_def
        split: sum.splits prod.splits if_splits dest: probe_rows_calls [where t' = t'])
qed

lemma missing_rows_columns:
  assumes g: "get_missing_rows s t = (Inr (missing, cols), s')" and ne: "missing \<noteq> []"
  shows "cols \<noteq> []"
proof -
  from g obtain pks where pk: "db_primary_keys (conn_db (source_conn s)) t = Inr pks"
    by (cases "db_primary_keys (conn_db (source_conn s)) t")
       (auto simp: get_missing_rows_def get_primary_keys_def Let_def record_call_def)
  from g pk ne have pks: "pks \<noteq> []" by (auto simp: get_missing_rows_no_pk)
  from ne obtain row where "row \<in> set missing" by (cases missing) auto
  from missing_rows_absent [OF g pk this] obtain vs where "key_of cols pks row = Some vs" by blast
  from key_of_columns [OF this] pks show ?thesis by (cases pks) auto
qed

lemma sync_table_try_calls:
  assumes "sync_table_try s t = (r, s')"
  shows "\<exists>cs. conn_calls (target_conn s') = conn_calls (target_conn s) @ cs \<and>
              do_nothing_inserts t cs"
proof -
  obtain r1 s1 where c: "check_and_create_table s t = (r1, s1)"
    by (cases "check_and_create_table s t")
  from check_and_create_table_calls [OF c, of t] obtain cs1
    where cs1: "conn_calls (target_conn s1) = conn_calls (target_conn s) @ cs1"
      "do_nothing_inserts t cs1" by blast
  show ?thesis
  proof (cases r1)
    case (Inl e)
    with c assms cs1 show ?thesis by (auto simp: sync_table_try_def)
  next
    case (Inr u)
    with c have c': "check_and_create_table s t = (Inr (), s1)" by simp
    obtain r2 s2 where g: "get_missing_rows s1 t = (r2, s2)" by (cases "get_missing_rows s1 t")
    from get_missing_rows_calls [OF g, of t] obtain cs2
      where cs2: "conn_calls (target_conn s2) = conn_calls (target_conn s1) @ cs2"
        "do_nothing_inserts t cs2" by blast
    from cs1 cs2 have upto2: "conn_calls (target_conn s2) = conn_calls (target_conn s) @ (cs1 @ cs2)"
      "do_nothing_inserts t (cs1 @ cs2)" by (simp_all add: do_nothing_inserts_append)
    show ?thesis
    proof (cases r2)
      case (Inl e)
      with c' g assms upto2 show ?thesis by (auto simp: sync_table_try_def)
    next
      case mc: (Inr mc)
      obtain missing cols where "mc = (missing, cols)" by (cases mc)
      with g mc have g': "get_missing_rows s1 t = (Inr (missing, cols), s2)" by simp
      note unf = sync_table_try_unfold [OF c' g']
      show ?thesis
      proof (cases "missing = []")
        case True
        with unf assms have "conn_calls (target_conn s') = conn_calls (target_conn s2)"
          by (auto simp: log_msg_def)
        with upto2 show ?thesis by auto
      next
        case False
        from missing_rows_columns [OF g' False] have cols: "cols \<noteq> []" .
        let ?call = "ExecuteValues (insert_stmt t cols) missing"
        from unf False assms cols
        have "conn_calls (target_conn s') = conn_calls (target_conn s2) @ [?call] \<or>
              conn_calls (target_conn s') = conn_calls (target_conn s2) @ [?call, Commit]"
          by (auto simp: execute_values_insert_stmt log_msg_def commit_def record_call_def
              split: sum.splits)
        moreover have "do_nothing_inserts t [?call]" "do_nothing_inserts t [?call, Commit]"
          using do_nothing_insert_stmt [OF cols, of t missing]
          by (simp_all add: do_nothing_inserts_def)
        ultimately show ?thesis
          using upto2 by (auto simp: do_nothing_inserts_append)
      qed
    qed
  qed
qed

lemma sync_table_calls:
  assumes "sync_table s t = (r, s')"
  shows "\<exists>cs. conn_calls (target_conn s') = conn_calls (target_conn s) @ cs \<and>
              do_nothing_inserts t cs"
proof -
  obtain r0 s0 where body: "sync_table_try s t = (r0, s0)" by (cases "sync_table_try s t")
  from sync_table_try_calls [OF body] obtain cs
    where cs: "conn_calls (target_conn s0) = conn_calls (target_conn s) @ cs"
      "do_nothing_inserts t cs" by blast
  show ?thesis
  proof (cases r0)
    case (Inr u)
    with body assms cs show ?thesis by (auto simp: sync_table_def)
  next
    case (Inl e)
    with body assms have "conn_calls (target_conn s') = conn_calls (target_conn s0) @ [Rollback]"
      by (auto simp: sync_table_def log_msg_def rollback_def record_call_def split: if_splits)
    with cs have "conn_calls (target_conn s') = conn_calls (target_conn s) @ (cs @ [Rollback])"
      "do_nothing_inserts t (cs @ [Rollback])"
      by (simp_all add: do_nothing_inserts_def)
    then show ?thesis by blast
  qed
qed

text \<open>Under \<open>ON CONFLICT DO NOTHING\<close> no row raises a unique violation.\<close>

lemma insert_rows_no_unique_violation:
  "insert_rows tb cols True rs = Inl e \<Longrightarrow>
   e \<noteq> IntegrityError ''duplicate key value violates unique constraint''"
  by (induction rs arbitrary: tb) (auto split: if_splits)

lemma probe_rows_error:
  "probe_rows tc t pks cols rows m = (Inl e, tc') \<Longrightarrow> \<not> is_integrity_error e"
proof (induction rows arbitrary: tc m)
  case Nil
  then show ?case by simp
next
  case (Cons row rows)
  show ?case
  proof (cases "pk_values pks cols row []")
    case (Inl e')
    have "pk_values ks cols row d = Inl x \<Longrightarrow> \<not> is_integrity_error x" for ks d x
      by (induction ks arbitrary: d) (auto split: option.splits if_splits)
    with Inl Cons.prems show ?thesis by auto
  next
    case (Inr d)
    show ?thesis
    proof (cases "db_probe (conn_db tc) t pks (map snd d)")
      case (Inl e')
      with Inr Cons.prems show ?thesis
        by (auto simp: probe_format db_probe_def split: if_splits option.splits)
    next
      case found: (Inr found)
      with Inr Cons.prems Cons.IH show ?thesis by (auto simp: probe_format)
    qed
  qed
qed

lemma get_missing_rows_error:
  "get_missing_rows s t = (Inl e, s') \<Longrightarrow> \<not> is_integrity_error e"
  by (auto simp: get_missing_rows_def get_primary_keys_def Let_def db_primary_keys_def
      select_all_rows_def select_format db_select_all_def
      split: sum.splits prod.splits if_splits option.splits dest: probe_rows_error)

lemma sync_table_try_no_unique_violation:
  assumes "sync_table_try s t = (Inl e, s')"
  shows "e \<noteq> IntegrityError ''duplicate key value violates unique constraint''"
proof -
  obtain r1 s1 where c: "check_and_create_table s t = (r1, s1)"
    by (cases "check_and_create_table s t")
  show ?thesis
  proof (cases r1)
    case (Inl e1)
    with c assms check_and_create_table_error [of s t e1 s1] show ?thesis
      by (auto simp: sync_table_try_def)
  next
    case (Inr u)
    with c have c': "check_and_create_table s t = (Inr (), s1)" by simp
    obtain r2 s2 where g: "get_missing_rows s1 t = (r2, s2)" by (cases "get_missing_rows s1 t")
    show ?thesis
    proof (cases r2)
      case (Inl e2)
      with c' g assms get_missing_rows_error [of s1 t e2 s2] show ?thesis
        by (auto simp: sync_table_try_def)
    next
      case mc: (Inr mc)
      obtain missing cols where "mc = (missing, cols)" by (cases mc)
      with g mc have g': "get_missing_rows s1 t = (Inr (missing, cols), s2)" by simp
      note unf = sync_table_try_unfold [OF c' g']
      show ?thesis
      proof (cases "missing = []")
        case True
        with unf assms show ?thesis by simp
      next
        case False
        from missing_rows_columns [OF g' False] have cols: "cols \<noteq> []" .
        from unf False assms cols
        have "db_insert (conn_db (target_conn s2)) t cols True missing = Inl e"
          by (auto simp: execute_values_insert_stmt split: sum.splits)
        then show ?thesis
          by (auto simp: db_insert_def split: option.splits if_splits sum.splits
              dest: insert_rows_no_unique_violation)
      qed
    qed
  qed
qed

text \<open>
  Claim C5.  When the target table already holds a row with the (non-NULL) primary-key
  values \<open>kv\<close>, a sync of that table leaves the rows with that key exactly as they were,
  whatever the source holds for the key and however the sync ends: every row the target
  had is still there, in place, and no further row with that key has been added.  Every
  bulk insert the sync sends to the target is the statement
  \<open>INSERT INTO "t" (...) VALUES %s ON CONFLICT DO NOTHING\<close>, which the server executes
  under that policy: the \<open>try\<close> block never ends in a unique violation, a row of the batch
  that conflicts with an existing row is dropped.
\<close>

theorem existing_target_row_is_left_alone:
  assumes run: "sync_table s t = (res, s')"
    and clean: "conn_committed (target_conn s) = conn_db (target_conn s)"
    and tt: "resolve (conn_db (target_conn s)) t = Some tt"
    and pk: "db_primary_keys (conn_db (source_conn s)) t = Inr pks"
    and nonnull: "Null \<notin> set kv"
    and held: "present_in (conn_db (target_conn s)) t pks kv"
  shows "(\<exists>tt'. resolve (conn_db (target_conn s')) t = Some tt' \<and> tbl_cols tt' = tbl_cols tt \<and>
           (\<exists>extra. tbl_rows tt' = tbl_rows tt @ extra) \<and>
           filter (\<lambda>r. key_of (map fst (tbl_cols tt)) pks r = Some kv) (tbl_rows tt') =
           filter (\<lambda>r. key_of (map fst (tbl_cols tt)) pks r = Some kv) (tbl_rows tt)) \<and>
         (\<exists>cs. conn_calls (target_conn s') = conn_calls (target_conn s) @ cs \<and>
               do_nothing_inserts t cs) \<and>
         fst (sync_table_try s t) \<noteq>
           Inl (IntegrityError ''duplicate key value violates unique constraint'')"
proof -
  note kept = existing_rows_kept [OF run clean tt pk nonnull held]
  note calls = sync_table_calls [OF run]
  have "fst (sync_table_try s t) \<noteq>
           Inl (IntegrityError ''duplicate key value violates unique constraint'')"
  proof
    assume "fst (sync_table_try s t) =
            Inl (IntegrityError ''duplicate key value violates unique constraint'')"
    then obtain sx where "sync_table_try s t =
        (Inl (IntegrityError ''duplicate key value violates unique constraint''), sx)"
      by (cases "sync_table_try s t") auto
    from sync_table_try_no_unique_violation [OF this] show False by simp
  qed
  with kept calls show ?thesis by blast
qed

lemma dropped_example_run:
  "fst (sync_table (sync_of [users_source] [users_named]) ''users'') = Inr () \<and>
   conn_db (target_conn (snd (sync_table (sync_of [users_source] [users_named]) ''users''))) =
     [users_named\<lparr>tbl_rows := [IntV 9, TextV ''a''] # [IntV 2, Null] # []\<rparr>] \<and>
   ExecuteValues (insert_stmt ''users'' [''id'', ''name''])
       ([IntV 1, TextV ''a''] # [IntV 2, Null] # [])
     \<in> set (conn_calls (target_conn (snd (sync_table (sync_of [users_source] [users_named]) ''users''))))"
  by code_simp

lemma dropped_example_conflict:
  "conflicts users_named (new_row [''id'', ''name''] [''id'', ''name''] [IntV 1, TextV ''a''])"
  by code_simp

theorem existing_target_row_is_left_alone_witness:
  "conn_committed (target_conn (sync_of [users_source] [users_named])) =
     conn_db (target_conn (sync_of [users_source] [users_named])) \<and>
   resolve (conn_db (target_conn (sync_of [users_source] [users_named]))) ''users'' = Some users_named \<and>
   db_primary_keys (conn_db (source_conn (sync_of [users_source] [users_named]))) ''users'' = Inr [''id''] \<and>
   Null \<notin> set [IntV 9] \<and>
   present_in (conn_db (target_conn (sync_of [users_source] [users_named]))) ''users'' [''id''] [IntV 9] \<and>
   fst (sync_table (sync_of [users_source] [users_named]) ''users'') = Inr () \<and>
   conflicts users_named (new_row [''id'', ''name''] [''id'', ''name''] [IntV 1, TextV ''a'']) \<and>
   ExecuteValues (insert_stmt ''users'' [''id'', ''name''])
       ([IntV 1, TextV ''a''] # [IntV 2, Null] # [])
     \<in> set (conn_calls (target_conn (snd (sync_table (sync_of [users_source] [users_named]) ''users'')))) \<and>
   do_nothing_inserts ''users''
     (conn_calls (target_conn (snd (sync_table (sync_of [users_source] [users_named]) ''users'')))) \<and>
   filter (\<lambda>r. key_of (map fst (tbl_cols users_named)) [''id''] r = Some [IntV 9])
     (tbl_rows (users_named\<lparr>tbl_rows := [IntV 9, TextV ''a''] # [IntV 2, Null] # []\<rparr>)) =
     [[IntV 9, TextV ''a'']]"
proof -
  have run: "sync_table (sync_of [users_source] [users_named]) ''users'' =
      (fst (sync_table (sync_of [users_source] [users_named]) ''users''),
       snd (sync_table (sync_of [users_source] [users_named]) ''users''))" by simp
  have clean: "conn_committed (target_conn (sync_of [users_source] [users_named])) =
     conn_db (target_conn (sync_of [users_source] [users_named]))"
    by (simp add: sync_of_def new_connection_def)
  have calls0: "conn_calls (target_conn (sync_of [users_source] [users_named])) = []"
    by (simp add: sync_of_def new_connection_def)
  have tt: "resolve (conn_db (target_conn (sync_of [users_source] [users_named]))) ''users'' = Some users_named"
    by (simp add: sync_of_def new_connection_def users_named_def resolve_def in_public_def)
  have pk: "db_primary_keys (conn_db (source_conn (sync_of [users_source] [users_named]))) ''users'' = Inr [''id'']"
    by (simp add: sync_of_def new_connection_def users_source_def db_primary_keys_def resolve_def
          in_public_def)
  have nonnull: "Null \<notin> set [IntV 9]" by simp
  have held: "present_in (conn_db (target_conn (sync_of [users_source] [users_named]))) ''users'' [''id''] [IntV 9]"
    by code_simp
  have before: "filter (\<lambda>r. key_of (map fst (tbl_cols users_named)) [''id''] r = Some [IntV 9])
     (tbl_rows users_named) = [[IntV 9, TextV ''a'']]"
    by (simp add: users_named_def cell_def)
  note w = existing_target_row_is_left_alone [OF run clean tt pk nonnull held]
  from w dropped_example_run before
  have kept: "filter (\<lambda>r. key_of (map fst (tbl_cols users_named)) [''id''] r = Some [IntV 9])
     (tbl_rows (users_named\<lparr>tbl_rows := [IntV 9, TextV ''a''] # [IntV 2, Null] # []\<rparr>)) =
     [[IntV 9, TextV ''a'']]"
    by (auto simp: resolve_def in_public_def users_named_def)
  from w have policy: "do_nothing_inserts ''users''
     (conn_calls (target_conn (snd (sync_table (sync_of [users_source] [users_named]) ''users''))))"
    unfolding calls0 by auto
  from clean tt pk nonnull held dropped_example_run dropped_example_conflict policy kept
  show ?thesis by blast
qed

subsection \<open>The connections at the end of a run\<close>

lemma sync_table_try_closed:
  assumes "sync_table_try s t = (r, s')"
  shows "conn_closed (source_conn s') = conn_closed (source_conn s) \<and>
         conn_closed (target_conn s') = conn_closed (target_conn s)"
proof -
  obtain r1 s1 where c: "check_and_create_table s t = (r1, s1)"
    by (cases "check_and_create_table s t")
  note f1 = check_and_create_table_source_db [OF c]
  show ?thesis
  proof (cases r1)
    case (Inl e)
    with c assms f1 show ?thesis by (auto simp: sync_table_try_def)
  next
    case (Inr u)
    with c have c': "check_and_create_table s t = (Inr (), s1)" by simp
    obtain r2 s2 where g: "get_missing_rows s1 t = (r2, s2)" by (cases "get_missing_rows s1 t")
    note f2 = get_missing_rows_frame(5,6) [OF g]
    show ?thesis
    proof (cases r2)
      case (Inl e)
      with c' g assms f1 f2 show ?thesis by (auto simp: sync_table_try_def)
    next
      case mc: (Inr mc)
      obtain missing cols where "mc = (missing, cols)" by (cases mc)
      with g mc have g': "get_missing_rows s1 t = (Inr (missing, cols), s2)" by simp
      note unf = sync_table_try_unfold [OF c' g']
      show ?thesis
      proof (cases "missing = []")
        case True
        with unf assms f1 f2 show ?thesis by (auto simp: log_msg_def)
      next
        case False
        obtain r3 tc where ev: "execute_values (target_conn s2) (insert_stmt t cols) missing = (r3, tc)"
          by (cases "execute_values (target_conn s2) (insert_stmt t cols) missing")
        from execute_values_committed [OF ev]
        have f3: "conn_closed tc = conn_closed (target_conn s2)" by simp
        show ?thesis
        proof (cases r3)
          case (Inl e3)
          with unf False ev assms f1 f2 f3 show ?thesis by auto
        next
          case (Inr u3)
          with unf False ev assms f1 f2 f3 show ?thesis
            by (auto simp: log_msg_def commit_def record_call_def)
        qed
      qed
    qed
  qed
qed

lemma sync_table_closed:
  assumes "sync_table s t = (r, s')"
  shows "conn_closed (source_conn s') = conn_closed (source_conn s) \<and>
         conn_closed (target_conn s') = conn_closed (target_conn s)"
proof -
  obtain r0 s0 where body: "sync_table_try s t = (r0, s0)" by (cases "sync_table_try s t")
  from sync_table_try_closed [OF body] assms body show ?thesis
    by (cases r0) (auto simp: sync_table_def log_msg_def rollback_def record_call_def split: if_splits)
qed

lemma sync_tables_closed:
  "sync_tables s ts = (r, s') \<Longrightarrow>
   conn_closed (source_conn s') = conn_closed (source_conn s) \<and>
   conn_closed (target_conn s') = conn_closed (target_conn s)"
proof (induction ts arbitrary: s)
  case Nil
  then show ?case by simp
next
  case (Cons t ts)
  obtain r1 s1 where st: "sync_table s t = (r1, s1)" by (cases "sync_table s t")
  note f = sync_table_closed [OF st]
  show ?case
  proof (cases r1)
    case (Inl e)
    with Cons.prems st f show ?thesis by simp
  next
    case (Inr u)
    with Cons.prems st have "sync_tables s1 ts = (r, s')" by simp
    from Cons.IH [OF this] f show ?thesis by simp
  qed
qed

lemma sync_all_tables_closed:
  assumes "sync_all_tables s = (r, s')"
  shows "conn_closed (source_conn s') = conn_closed (source_conn s) \<and>
         conn_closed (target_conn s') = conn_closed (target_conn s)"
proof -
  obtain r1 s1 where st: "sync_tables (listed s) (db_public_tables (conn_db (source_conn s))) = (r1, s1)"
    by (cases "sync_tables (listed s) (db_public_tables (conn_db (source_conn s)))")
  from sync_tables_closed [OF st]
  have "conn_closed (source_conn s1) = conn_closed (source_conn s) \<and>
        conn_closed (target_conn s1) = conn_closed (target_conn s)"
    by (simp add: listed_def record_call_def)
  with assms st show ?thesis
    by (cases r1) (auto simp: sync_all_tables_def Let_def listed_def record_call_def log_msg_def)
qed

text \<open>Whatever the configurations and however the run ends, \<open>main\<close> leaves every
  connection it opened open.\<close>

lemma main_never_closes:
  assumes "main prod_loaded dev_loaded = (res, r)"
  shows "(case run_source r of None \<Rightarrow> True | Some c \<Rightarrow> \<not> conn_closed c) \<and>
         (case run_target r of None \<Rightarrow> True | Some c \<Rightarrow> \<not> conn_closed c)"
proof (cases prod_loaded)
  case (Inl e)
  with assms show ?thesis by (auto simp: main_def)
next
  case p: (Inr p)
  show ?thesis
  proof (cases dev_loaded)
    case (Inl e)
    with p assms show ?thesis by (auto simp: main_def)
  next
    case d: (Inr d)
    show ?thesis
    proof (cases "init p d [(INFO, ''Syncing databases'')]")
      case (Inl er)
      with p d assms show ?thesis
        by (auto simp: main_def init_def connect_def new_connection_def
            split: option.splits prod.splits sum.splits)
    next
      case (Inr s0)
      then have open0: "\<not> conn_closed (source_conn s0) \<and> \<not> conn_closed (target_conn s0)"
        by (auto simp: init_def connect_def new_connection_def split: option.splits)
      obtain r1 s1 where run: "sync_all_tables s0 = (r1, s1)" by (cases "sync_all_tables s0")
      from sync_all_tables_closed [OF run] open0 p d Inr assms run show ?thesis
        by (auto simp: main_def)
    qed
  qed
qed

text \<open>
  Claim C8 asks that both connections be released at the end of every run.  \<open>main\<close>
  never calls \<open>close_connections\<close>: after a run that ends normally and after a run that
  ends with an exception, both connections are still open and no close call was made on
  either of them (and by \<open>main_never_closes\<close> this is so for every run).
\<close>

theorem main_leaves_connections_open:
  "fst (main (Inr prod_config) (Inr dev_config)) = Inr () \<and>
   map_option conn_closed (run_source (snd (main (Inr prod_config) (Inr dev_config)))) = Some False \<and>
   map_option conn_closed (run_target (snd (main (Inr prod_config) (Inr dev_config)))) = Some False \<and>
   map_option (\<lambda>c. Close \<in> set (conn_calls c))
     (run_source (snd (main (Inr prod_config) (Inr dev_config)))) = Some False \<and>
   map_option (\<lambda>c. Close \<in> set (conn_calls c))
     (run_target (snd (main (Inr prod_config) (Inr dev_config)))) = Some False \<and>
   fst (main (Inr prod_config) (Inr dev_archived_config)) =
     Inl (ProgrammingError ''relation does not exist'') \<and>
   map_option conn_closed (run_source (snd (main (Inr prod_config) (Inr dev_archived_config))))
     = Some False \<and>
   map_option conn_closed (run_target (snd (main (Inr prod_config) (Inr dev_archived_config))))
     = Some False"
  by code_simp

end
